theory Spec2Isabelle
  imports Complex_Main
begin

section \<open>BacktestEngine (indicator\_validation.py)\<close>

text \<open>
  Python floats are idealised as real numbers; timestamps are integers (epoch seconds).
  A trade-log entry and an equity point are the dictionaries the source appends.
  The \<open>type\<close> entry of a trade is \<open>None\<close> only between the creation of the dictionary
  and the branch that sets it, so the field holds the final tag.
\<close>

datatype trade_type = BUY | SELL | HOLD

record trade =
  t_date :: int
  t_price :: real
  t_signal :: real
  t_type :: trade_type
  t_position :: real
  t_capital :: real
  t_pnl :: real

record equity_point =
  e_date :: int
  e_price :: real
  e_capital :: real
  e_position :: real
  e_signal :: real

record engine =
  initial_capital :: real
  capital :: real
  position :: real
  trades :: "trade list"
  equity_curve :: "equity_point list"

definition BacktestEngine_init :: "real \<Rightarrow> engine" where
  "BacktestEngine_init c =
     \<lparr>initial_capital = c, capital = c, position = 0, trades = [], equity_curve = []\<rparr>"

text \<open>
  A call either returns, or raises with the engine left as it was at the raise:
  the division by the previous price is the only operation of \<open>execute_trade\<close> that can
  fail, and it comes after the position was set and the trade appended. A zero previous
  price makes Python's float division raise \<open>ZeroDivisionError\<close>; were the prices numpy
  floats, the quotient would be infinite or NaN instead, which the reals do not have, so
  every statement below about the capital update assumes a previous price other than zero.
  The parameter \<open>position_size\<close> and the locals \<open>buy_amount\<close>, \<open>sell_ratio\<close> and
  \<open>sell_value\<close> of the source are never read and are left out.
\<close>

datatype exn = ZeroDivisionError

datatype outcome = Returned engine | Raised exn engine

fun outcome_state :: "outcome \<Rightarrow> engine" where
  "outcome_state (Returned s) = s"
| "outcome_state (Raised e s) = s"

text \<open>The signal bands of \<open>execute_trade\<close> (first part of its body).\<close>

definition target_position :: "engine \<Rightarrow> real \<Rightarrow> real" where
  "target_position s signal =
     (if signal > 1.5 then 1.0
      else if signal > 0.5 then 0.6
      else if signal < - 1.5 then 0
      else if signal < - 0.5 then 0.3
      else position s)"

text \<open>The position adjustment and the append to the trade log (second part).\<close>

definition adjust_position :: "engine \<Rightarrow> int \<Rightarrow> real \<Rightarrow> real \<Rightarrow> engine" where
  "adjust_position s date price signal =
     (let trade = \<lparr>t_date = date, t_price = price, t_signal = signal, t_type = HOLD,
                    t_position = 0, t_capital = capital s, t_pnl = 0\<rparr>;
          target = target_position s signal
      in if target > position s then
           s\<lparr>position := target,
             trades := trades s @ [trade\<lparr>t_type := BUY, t_position := target\<rparr>]\<rparr>
         else if target < position s then
           s\<lparr>position := target,
             trades := trades s @ [trade\<lparr>t_type := SELL, t_position := target\<rparr>]\<rparr>
         else
           s\<lparr>trades := trades s @ [trade\<lparr>t_type := HOLD, t_position := position s\<rparr>]\<rparr>)"

definition append_equity :: "engine \<Rightarrow> int \<Rightarrow> real \<Rightarrow> real \<Rightarrow> engine" where
  "append_equity s date price signal =
     s\<lparr>equity_curve := equity_curve s @
         [\<lparr>e_date = date, e_price = price, e_capital = capital s,
           e_position = position s, e_signal = signal\<rparr>]\<rparr>"

text \<open>The whole method: adjustment, then the capital update, then the equity point.\<close>

definition execute_trade :: "engine \<Rightarrow> int \<Rightarrow> real \<Rightarrow> real \<Rightarrow> outcome" where
  "execute_trade s date price signal =
     (let s1 = adjust_position s date price signal
      in if length (equity_curve s1) > 0 then
           (let last_price = e_price (last (equity_curve s1))
            in if last_price = 0 then Raised ZeroDivisionError s1
               else
                 (let price_change = (price - last_price) / last_price;
                      s2 = s1\<lparr>capital := capital s1 * (1 + position s1 * price_change)\<rparr>
                  in Returned (append_equity s2 date price signal)))
         else Returned (append_equity s1 date price signal))"

text \<open>
  Any sequence of calls on one engine, whether or not the caller catches an exception in
  between: the state after each call is the state the call left.
\<close>

fun call_sequence :: "engine \<Rightarrow> (int \<times> real \<times> real) list \<Rightarrow> engine" where
  "call_sequence s [] = s"
| "call_sequence s ((date, price, signal) # rest) =
     call_sequence (outcome_state (execute_trade s date price signal)) rest"

text \<open>\<open>calculate_win_rate\<close>: the loop over \<open>range(1, len(trades))\<close> looks at each entry and its
  predecessor.\<close>

fun win_rate_loop :: "trade list \<Rightarrow> nat \<times> nat \<Rightarrow> nat \<times> nat" where
  "win_rate_loop (prev # cur # rest) (winning_trades, total_trades) =
     win_rate_loop (cur # rest)
       (if t_type cur = SELL \<and> t_type prev = BUY
        then (if t_capital cur > t_capital prev then winning_trades + 1 else winning_trades,
              total_trades + 1)
        else (winning_trades, total_trades))"
| "win_rate_loop _ acc = acc"

definition calculate_win_rate :: "engine \<Rightarrow> real" where
  "calculate_win_rate s =
     (case win_rate_loop (trades s) (0, 0) of (winning_trades, total_trades) \<Rightarrow>
        if total_trades = 0 then 0
        else (real winning_trades / real total_trades) * 100)"

text \<open>The adjacent BUY-then-SELL pairs of a trade log, as a list comprehension.\<close>

definition adjacent_buy_sell :: "trade list \<Rightarrow> (trade \<times> trade) list" where
  "adjacent_buy_sell ts =
     filter (\<lambda>(a, b). t_type a = BUY \<and> t_type b = SELL) (zip ts (tl ts))"

text \<open>
  The win rate in the specification's words: a round trip is a BUY followed by the next
  SELL with any number of HOLD records in between, so HOLD records are dropped before
  pairing; the rate is the fraction of round trips that end with more capital.
\<close>

definition spec_round_trips :: "trade list \<Rightarrow> (trade \<times> trade) list" where
  "spec_round_trips ts =
     (let acts = filter (\<lambda>t. t_type t \<noteq> HOLD) ts
      in filter (\<lambda>(a, b). t_type a = BUY \<and> t_type b = SELL) (zip acts (tl acts)))"

definition spec_win_rate :: "engine \<Rightarrow> real" where
  "spec_win_rate s =
     (let rts = spec_round_trips (trades s)
      in if rts = [] then 0
         else real (length (filter (\<lambda>(a, b). t_capital b > t_capital a) rts))
              / real (length rts))"

text \<open>Two concrete runs used below.\<close>

definition engine_after_hold :: engine where
  "engine_after_hold = outcome_state (execute_trade (BacktestEngine_init 10000) 5 100 0)"

definition buy_hold_sell_run :: engine where
  "buy_hold_sell_run =
     call_sequence (BacktestEngine_init 10000) [(1, 100, 1), (2, 110, 0), (3, 121, - 2)]"

section \<open>SignalGenerator (indicator\_validation.py)\<close>

record zone_thresholds =
  strong_buy :: real
  buy :: real
  neutral_low :: real
  neutral_high :: real
  sell :: real
  strong_sell :: real

definition thresholds :: "(string \<times> zone_thresholds) list" where
  "thresholds =
     [(''SOPR'', \<lparr>strong_buy = 0.95, buy = 0.98, neutral_low = 1.00, neutral_high = 1.02,
                  sell = 1.05, strong_sell = 1.08\<rparr>),
      (''MVRV'', \<lparr>strong_buy = - 0.5, buy = 0, neutral_low = 1, neutral_high = 2,
                  sell = 3, strong_sell = 4\<rparr>),
      (''NUPL'', \<lparr>strong_buy = 0, buy = 0.25, neutral_low = 0.5, neutral_high = 0.65,
                  sell = 0.75, strong_sell = 0.85\<rparr>),
      (''NVT'', \<lparr>strong_buy = 40, buy = 50, neutral_low = 70, neutral_high = 90,
                 sell = 100, strong_sell = 120\<rparr>),
      (''Puell'', \<lparr>strong_buy = 0.3, buy = 0.5, neutral_low = 1, neutral_high = 2,
                   sell = 3, strong_sell = 4\<rparr>)]"

text \<open>The branch of \<open>generate_signal\<close> taken for \<open>NVT\<close>.\<close>

definition nvt_logic :: "zone_thresholds \<Rightarrow> real \<Rightarrow> int" where
  "nvt_logic th val =
     (if val \<le> strong_buy th then 2
      else if val \<le> buy th then 1
      else if val \<le> neutral_low th then 0
      else if val \<le> neutral_high th then 0
      else if val \<le> sell th then - 1
      else - 2)"

text \<open>The branch taken for every other registered indicator.\<close>

definition normal_logic :: "zone_thresholds \<Rightarrow> real \<Rightarrow> int" where
  "normal_logic th val =
     (if val \<le> strong_buy th then 2
      else if val \<le> buy th then 1
      else if val \<le> neutral_low th then 0
      else if val \<le> neutral_high th then 0
      else if val \<le> sell th then - 1
      else - 2)"

definition generate_signal :: "real \<Rightarrow> string \<Rightarrow> int" where
  "generate_signal val indicator =
     (case map_of thresholds indicator of
        None \<Rightarrow> 0
      | Some th \<Rightarrow> if indicator = ''NVT'' then nvt_logic th val else normal_logic th val)"

definition weights :: "(string \<times> real) list" where
  "weights =
     [(''MVRV'', 0.35), (''NUPL'', 0.25), (''SOPR'', 0.20), (''NVT'', 0.10), (''Puell'', 0.10)]"

text \<open>
  \<open>generate_composite_signal\<close>: the dictionary of signals is the list of its items, in
  iteration order; the loop accumulates \<open>composite\<close> and \<open>total_weight\<close>.
\<close>

fun composite_loop :: "(string \<times> int) list \<Rightarrow> real \<times> real \<Rightarrow> real \<times> real" where
  "composite_loop [] acc = acc"
| "composite_loop ((indicator, signal) # rest) (composite, total_weight) =
     composite_loop rest
       (case map_of weights indicator of
          Some w \<Rightarrow> (composite + real_of_int signal * w, total_weight + w)
        | None \<Rightarrow> (composite, total_weight))"

definition generate_composite_signal :: "(string \<times> int) list \<Rightarrow> real" where
  "generate_composite_signal signals =
     (case composite_loop signals (0, 0) of (composite, total_weight) \<Rightarrow>
        if total_weight > 0 then composite / total_weight else 0)"

text \<open>The weight of an indicator name, and the items whose name has a weight.\<close>

definition weight_of :: "string \<Rightarrow> real" where
  "weight_of indicator = (case map_of weights indicator of Some w \<Rightarrow> w | None \<Rightarrow> 0)"

definition present_weighted :: "(string \<times> int) list \<Rightarrow> (string \<times> int) list" where
  "present_weighted signals =
     filter (\<lambda>(indicator, signal). map_of weights indicator \<noteq> None) signals"

section \<open>InformationGainAnalyzer (glassnode\_information\_gain\_analysis.py)\<close>

text \<open>
  A discretised array (the result of \<open>pd.qcut(..., labels=False)\<close>) is a list of bin
  labels. \<open>pd.Series(xs).value_counts(normalize=True)\<close> maps each distinct label to its
  relative frequency; only sums over it are taken, so the order of its index is immaterial
  over the reals.
\<close>

definition value_counts :: "nat list \<Rightarrow> (nat \<times> real) list" where
  "value_counts xs =
     map (\<lambda>v. (v, real (count_list xs v) / real (length xs))) (remdups xs)"

text \<open>
  The source's entropy expression \<open>-np.sum(probs * np.log2(probs + 1e-10))\<close>; the
  constant \<open>1e-10\<close> added inside the logarithm is named \<open>smoothing\<close>.
\<close>

definition smoothing :: real where
  "smoothing = 1 / 10 ^ 10"

definition entropy_of_probs :: "(nat \<times> real) list \<Rightarrow> real" where
  "entropy_of_probs probs = - (\<Sum>(v, p) \<leftarrow> probs. p * log 2 (p + smoothing))"

text \<open>Boolean-mask indexing \<open>xs[mask]\<close>.\<close>

definition select_mask :: "'a list \<Rightarrow> bool list \<Rightarrow> 'a list" where
  "select_mask xs msk = map fst (filter snd (zip xs msk))"

text \<open>The loop over \<open>indicator_probs.index\<close> that accumulates \<open>H_target_given_indicator\<close>.\<close>

fun conditional_entropy_loop ::
  "nat list \<Rightarrow> nat list \<Rightarrow> (nat \<times> real) list \<Rightarrow> real \<Rightarrow> real" where
  "conditional_entropy_loop indicator_discrete target_discrete [] acc = acc"
| "conditional_entropy_loop indicator_discrete target_discrete ((x_val, p_x) # rest) acc =
     (let msk = map (\<lambda>a. a = x_val) indicator_discrete
      in if length (filter (\<lambda>b. b) msk) > 0 then
           (let y_given_x = select_mask target_discrete msk;
                y_probs = value_counts y_given_x;
                h_y_given_x = entropy_of_probs y_probs
            in conditional_entropy_loop indicator_discrete target_discrete rest
                 (acc + p_x * h_y_given_x))
         else conditional_entropy_loop indicator_discrete target_discrete rest acc)"

record ig_result =
  information_gain :: real
  gain_ratio :: real
  symmetric_uncertainty :: real
  mutual_information_discrete :: real
  normalized_mi_discrete :: real
  target_entropy :: real
  conditional_entropy :: real
  indicator_entropy :: real
  reduction_ratio :: real

text \<open>
  sklearn's \<open>mutual_info_score\<close> of two label arrays, as its documentation defines it:
  the sum over the observed label pairs of p(u, v) ln (p(u, v) / (p(u) p(v))), in nats.
\<close>

definition mutual_info_score :: "nat list \<Rightarrow> nat list \<Rightarrow> real" where
  "mutual_info_score us vs =
     (let n = real (length us); pairs = zip us vs
      in \<Sum>(u, v) \<leftarrow> remdups pairs.
           (real (count_list pairs (u, v)) / n) *
           ln (n * real (count_list pairs (u, v)) /
               (real (count_list us u) * real (count_list vs v))))"

text \<open>The part of \<open>calculate_information_gain\<close> after the discretisation.\<close>

definition information_gain_of_labels :: "nat list \<Rightarrow> nat list \<Rightarrow> ig_result" where
  "information_gain_of_labels indicator_discrete target_discrete =
     (let target_probs = value_counts target_discrete;
          H_target = entropy_of_probs target_probs;
          indicator_probs = value_counts indicator_discrete;
          H_target_given_indicator =
            conditional_entropy_loop indicator_discrete target_discrete indicator_probs 0;
          ig = max 0 (H_target - H_target_given_indicator);
          H_indicator = entropy_of_probs indicator_probs;
          mutual_info = mutual_info_score indicator_discrete target_discrete
      in \<lparr>information_gain = ig,
          gain_ratio = (if H_indicator > 0 then ig / H_indicator else 0),
          symmetric_uncertainty =
            (if H_target + H_indicator > 0 then 2 * ig / (H_target + H_indicator) else 0),
          mutual_information_discrete = mutual_info,
          normalized_mi_discrete =
            (if min H_target H_indicator > 0 then mutual_info / min H_target H_indicator
             else 0),
          target_entropy = H_target,
          conditional_entropy = H_target_given_indicator,
          indicator_entropy = H_indicator,
          reduction_ratio = (if H_target > 0 then ig / H_target else 0)\<rparr>)"

text \<open>
  The entropies in the specification's words, over the same observed frequencies:
  H(Y) is minus the sum of p(y) log2 p(y), H(Y|X) the sum over x of p(x) H(Y|X=x), and
  the information gain max(0, H(Y) - H(Y|X)).
\<close>

definition spec_entropy :: "nat list \<Rightarrow> real" where
  "spec_entropy ys = - (\<Sum>(v, p) \<leftarrow> value_counts ys. p * log 2 p)"

definition spec_conditional_entropy :: "nat list \<Rightarrow> nat list \<Rightarrow> real" where
  "spec_conditional_entropy xs ys =
     (\<Sum>(x, p) \<leftarrow> value_counts xs.
        p * spec_entropy (map snd (filter (\<lambda>(a, b). a = x) (zip xs ys))))"

definition spec_information_gain :: "nat list \<Rightarrow> nat list \<Rightarrow> real" where
  "spec_information_gain xs ys = max 0 (spec_entropy ys - spec_conditional_entropy xs ys)"

text \<open>The code's two smoothed entropies, written as sums.\<close>

definition smoothed_entropy :: "nat list \<Rightarrow> real" where
  "smoothed_entropy ys = - (\<Sum>(v, p) \<leftarrow> value_counts ys. p * log 2 (p + smoothing))"

definition smoothed_conditional_entropy :: "nat list \<Rightarrow> nat list \<Rightarrow> real" where
  "smoothed_conditional_entropy xs ys =
     (\<Sum>(x, p) \<leftarrow> value_counts xs.
        p * smoothed_entropy (map snd (filter (\<lambda>(a, b). a = x) (zip xs ys))))"

text \<open>A hundred labels, fifty in each of two bins.\<close>

definition two_bins :: "nat list" where
  "two_bins = replicate 50 0 @ replicate 50 1"

section \<open>GlassnodeAdvancedAnalyzer (glassnode\_advanced\_analysis.py)\<close>

text \<open>
  Values that come out of numpy or pandas arithmetic can be infinite or NaN (a division
  by zero gives one or the other, never an exception), so such values are floats with
  these cases added to the reals. Signed zeros are not distinguished.
\<close>

datatype npfloat = Fin real | PosInf | NegInf | NaN

fun isnan :: "npfloat \<Rightarrow> bool" where
  "isnan NaN = True"
| "isnan _ = False"

text \<open>The comparison \<open>x <= y\<close> of two floats: false as soon as one of them is NaN.\<close>

fun np_le :: "npfloat \<Rightarrow> npfloat \<Rightarrow> bool" where
  "np_le NaN _ = False"
| "np_le _ NaN = False"
| "np_le NegInf _ = True"
| "np_le _ PosInf = True"
| "np_le (Fin a) (Fin b) = (a \<le> b)"
| "np_le _ _ = False"

fun np_abs :: "npfloat \<Rightarrow> npfloat" where
  "np_abs (Fin a) = Fin \<bar>a\<bar>"
| "np_abs PosInf = PosInf"
| "np_abs NegInf = PosInf"
| "np_abs NaN = NaN"

text \<open>
  \<open>np.argmax\<close> of a one-dimensional float array, as numpy computes it: the running
  maximum starts at element 0; an element replaces it when \<open>not (element <= maximum)\<close>,
  and the scan stops at the first NaN. On an empty array numpy raises; the caller below
  never passes one.
\<close>

fun argmax_loop :: "npfloat list \<Rightarrow> nat \<Rightarrow> nat \<Rightarrow> npfloat \<Rightarrow> nat" where
  "argmax_loop [] i max_ind mp = max_ind"
| "argmax_loop (x # xs) i max_ind mp =
     (if \<not> np_le x mp
      then (if isnan x then i else argmax_loop xs (Suc i) i x)
      else argmax_loop xs (Suc i) max_ind mp)"

definition np_argmax :: "npfloat list \<Rightarrow> nat" where
  "np_argmax xs =
     (case xs of
        [] \<Rightarrow> 0
      | x # rest \<Rightarrow> if isnan x then 0 else argmax_loop rest 1 0 x)"

text \<open>
  One entry of the per-horizon result map. The information gain and the normalised
  mutual information are results of Python's \<open>max(0, _)\<close> and of a guarded division, so
  they are finite; the correlation is what pandas returns and may be NaN.
\<close>

record horizon_result =
  h_information_gain :: real
  h_normalized_mi :: real
  h_correlation :: npfloat
  h_entropy_price :: real
  h_entropy_conditional :: real
  h_reduction_ratio :: real
  h_sample_size :: nat

record optimum =
  optimal_horizon_ig :: nat
  max_ig :: real
  optimal_horizon_mi :: nat
  max_mi :: real
  optimal_horizon_corr :: nat
  max_correlation :: npfloat
  all_horizons :: "nat list"
  all_ig :: "real list"

text \<open>
  \<open>find_optimal_horizon\<close>. The dictionary is the list of its items in insertion order,
  which is the order of \<open>keys()\<close> and \<open>values()\<close>; the empty dictionary gives \<open>{}\<close>,
  here \<open>None\<close>.
\<close>

definition find_optimal_horizon :: "(nat \<times> horizon_result) list \<Rightarrow> optimum option" where
  "find_optimal_horizon multi_horizon_results =
     (if multi_horizon_results = [] then None
      else
        (let horizons = map fst multi_horizon_results;
             ig_values = map (\<lambda>(h, r). h_information_gain r) multi_horizon_results;
             mi_values = map (\<lambda>(h, r). h_normalized_mi r) multi_horizon_results;
             corr_values = map (\<lambda>(h, r). np_abs (h_correlation r)) multi_horizon_results;
             optimal_ig_idx = np_argmax (map Fin ig_values);
             optimal_mi_idx = np_argmax (map Fin mi_values);
             optimal_corr_idx = np_argmax corr_values
         in Some \<lparr>optimal_horizon_ig = horizons ! optimal_ig_idx,
                  max_ig = ig_values ! optimal_ig_idx,
                  optimal_horizon_mi = horizons ! optimal_mi_idx,
                  max_mi = mi_values ! optimal_mi_idx,
                  optimal_horizon_corr = horizons ! optimal_corr_idx,
                  max_correlation = corr_values ! optimal_corr_idx,
                  all_horizons = horizons,
                  all_ig = ig_values\<rparr>))"

text \<open>
  Index \<open>i\<close> is the first position of a maximum of \<open>vs\<close>: every element is at most
  \<open>vs ! i\<close>, and every earlier element is strictly smaller.
\<close>

definition first_max_index :: "npfloat list \<Rightarrow> nat \<Rightarrow> bool" where
  "first_max_index vs i \<longleftrightarrow>
     i < length vs \<and> list_all (\<lambda>v. np_le v (vs ! i)) vs \<and>
     list_all (\<lambda>v. \<not> np_le (vs ! i) v) (take i vs)"

text \<open>Two result maps used below: one filled in descending, one in ascending horizon order.\<close>

definition tied_result :: horizon_result where
  "tied_result =
     \<lparr>h_information_gain = 0.2, h_normalized_mi = 0.1, h_correlation = Fin (- 0.3),
      h_entropy_price = 2, h_entropy_conditional = 1.8, h_reduction_ratio = 0.1,
      h_sample_size = 200\<rparr>"

definition weaker_result :: horizon_result where
  "weaker_result =
     \<lparr>h_information_gain = 0.1, h_normalized_mi = 0.05, h_correlation = Fin 0.1,
      h_entropy_price = 2, h_entropy_conditional = 1.9, h_reduction_ratio = 0.05,
      h_sample_size = 200\<rparr>"

definition descending_results :: "(nat \<times> horizon_result) list" where
  "descending_results = [(7, tied_result), (1, tied_result)]"

definition ascending_results :: "(nat \<times> horizon_result) list" where
  "ascending_results = [(1, weaker_result), (7, tied_result), (30, tied_result)]"

section \<open>The two horizon scans\<close>

text \<open>
  A library call either returns a value or raises. Where the source guards a call with
  \<open>try\<close>, the raise takes the \<open>except\<close> branch; where it does not, the exception leaves
  the method and the method returns nothing.
\<close>

datatype 'a attempt = Raises | Returns 'a

text \<open>
  Calls into pandas, numpy and sklearn whose results the scans only pass on are parameters
  of the model, collected in one record. \<open>lib_qcut\<close> is
  \<open>pd.qcut(x, bins, labels=False, duplicates='drop')\<close> and \<open>lib_cut\<close> is
  \<open>pd.cut(x, bins, labels=False)\<close>; the label array either of them returns may hold NaN
  (here \<open>None\<close>) where a value fell into no bin. \<open>lib_pct_change_shift\<close> is
  \<open>col.pct_change(h).shift(-h)\<close> and \<open>lib_corr\<close> is \<open>Series.corr\<close>; on float columns
  neither raises. \<open>lib_kbins\<close> is the quantile \<open>KBinsDiscretizer\<close>, \<open>lib_histogram\<close>
  the counts of \<open>np.histogram\<close>, \<open>lib_mutual_info_regression\<close> and
  \<open>lib_mutual_info_classif\<close> the sklearn estimators. \<open>lib_transfer_entropy\<close> stands
  for the body of \<open>calculate_transfer_entropy\<close> after its length guard, which is made of
  \<open>KBinsDiscretizer\<close> and \<open>pd.crosstab\<close> calls.
\<close>

record libs =
  lib_qcut :: "npfloat list \<Rightarrow> nat \<Rightarrow> nat option list attempt"
  lib_cut :: "npfloat list \<Rightarrow> nat \<Rightarrow> nat option list attempt"
  lib_pct_change_shift :: "npfloat list \<Rightarrow> nat \<Rightarrow> npfloat list"
  lib_corr :: "npfloat list \<Rightarrow> npfloat list \<Rightarrow> npfloat"
  lib_kbins :: "npfloat list \<Rightarrow> nat \<Rightarrow> nat list attempt"
  lib_histogram :: "npfloat list \<Rightarrow> nat \<Rightarrow> nat list attempt"
  lib_mutual_info_regression :: "npfloat list \<Rightarrow> npfloat list \<Rightarrow> real attempt"
  lib_mutual_info_classif :: "npfloat list \<Rightarrow> nat list \<Rightarrow> real attempt"
  lib_transfer_entropy :: "npfloat list \<Rightarrow> npfloat list \<Rightarrow> nat \<Rightarrow> nat \<Rightarrow> real attempt"

text \<open>Assignment \<open>d[k] = v\<close> to a dictionary kept in insertion order.\<close>

fun dict_set :: "('k \<times> 'v) list \<Rightarrow> 'k \<Rightarrow> 'v \<Rightarrow> ('k \<times> 'v) list" where
  "dict_set [] k v = [(k, v)]"
| "dict_set ((k', v') # rest) k v =
     (if k' = k then (k, v) # rest else (k', v') # dict_set rest k v)"

subsection \<open>InformationGainAnalyzer.analyze\_predictive\_information\<close>

text \<open>
  \<open>calculate_information_gain\<close>: rows with a NaN on either side are masked out; with
  fewer than 100 rows left the result is the empty dictionary, here \<open>None\<close>. If either
  \<open>qcut\<close> raises, both arrays are discretised with \<open>cut\<close> instead, and a raise of
  \<open>cut\<close> is not caught. The scores are computed from the labels; the unguarded call of
  \<open>mutual_info_score\<close> that follows raises when a label is NaN, so the method returns only
  for label arrays without NaN.
\<close>

definition discretize_pair ::
  "libs \<Rightarrow> npfloat list \<Rightarrow> npfloat list \<Rightarrow> nat \<Rightarrow> (nat option list \<times> nat option list) attempt"
  where
  "discretize_pair L indicator_clean target_clean bins =
     (case (lib_qcut L indicator_clean bins, lib_qcut L target_clean bins) of
        (Returns indicator_discrete, Returns target_discrete) \<Rightarrow>
          Returns (indicator_discrete, target_discrete)
      | _ \<Rightarrow>
          (case (lib_cut L indicator_clean bins, lib_cut L target_clean bins) of
             (Returns indicator_discrete, Returns target_discrete) \<Rightarrow>
               Returns (indicator_discrete, target_discrete)
           | _ \<Rightarrow> Raises))"

definition calculate_information_gain ::
  "libs \<Rightarrow> npfloat list \<Rightarrow> npfloat list \<Rightarrow> nat \<Rightarrow> ig_result option attempt" where
  "calculate_information_gain L indicator target bins =
     (let valid_mask = map (\<lambda>(a, b). \<not> (isnan a \<or> isnan b)) (zip indicator target);
          indicator_clean = select_mask indicator valid_mask;
          target_clean = select_mask target valid_mask
      in if length indicator_clean < 100 then Returns None
         else
           (case discretize_pair L indicator_clean target_clean bins of
              Raises \<Rightarrow> Raises
            | Returns (indicator_discrete, target_discrete) \<Rightarrow>
                if list_all (\<lambda>l. l \<noteq> None) indicator_discrete \<and>
                   list_all (\<lambda>l. l \<noteq> None) target_discrete
                then Returns (Some (information_gain_of_labels
                                      (map the indicator_discrete) (map the target_discrete)))
                else Raises))"

text \<open>\<open>calculate_entropy\<close>; \<open>np.histogram\<close> raises, for one, on an infinite value.\<close>

definition calculate_entropy :: "libs \<Rightarrow> npfloat list \<Rightarrow> nat \<Rightarrow> real attempt" where
  "calculate_entropy L data bins =
     (case lib_histogram L (filter (\<lambda>x. \<not> isnan x) data) bins of
        Raises \<Rightarrow> Raises
      | Returns hist \<Rightarrow>
          (let probs = map (\<lambda>c. real c / real (sum_list hist)) hist;
               probs = filter (\<lambda>p. p > 0) probs
           in Returns (- (\<Sum>p \<leftarrow> probs. p * log 2 p))))"

record mi_result =
  mutual_information :: real
  normalized_mi :: real
  max_possible_mi :: real

text \<open>
  \<open>calculate_mutual_information\<close>: the empty dictionary below 100 complete rows; above,
  none of the estimator calls is guarded. The source's local \<open>max_mi\<close> is \<open>upper_mi\<close>
  here.
\<close>

definition mi_score_and_upper ::
  "libs \<Rightarrow> npfloat list \<Rightarrow> npfloat list \<Rightarrow> bool \<Rightarrow> (real \<times> real) attempt" where
  "mi_score_and_upper L X y discrete =
     (if discrete then
        (case lib_kbins L y 5 of
           Raises \<Rightarrow> Raises
         | Returns y_discrete \<Rightarrow>
             (case lib_mutual_info_classif L X y_discrete of
                Raises \<Rightarrow> Raises
              | Returns mi_score \<Rightarrow>
                  (case calculate_entropy L (map (\<lambda>n. Fin (real n)) y_discrete) 5 of
                     Raises \<Rightarrow> Raises
                   | Returns upper_mi \<Rightarrow> Returns (mi_score, upper_mi))))
      else
        (case lib_mutual_info_regression L X y of
           Raises \<Rightarrow> Raises
         | Returns mi_score \<Rightarrow>
             (case calculate_entropy L y 10 of
                Raises \<Rightarrow> Raises
              | Returns upper_mi \<Rightarrow> Returns (mi_score, upper_mi))))"

definition calculate_mutual_information ::
  "libs \<Rightarrow> npfloat list \<Rightarrow> npfloat list \<Rightarrow> bool \<Rightarrow> mi_result option attempt" where
  "calculate_mutual_information L indicator target discrete =
     (let data = filter (\<lambda>(a, b). \<not> isnan a \<and> \<not> isnan b) (zip indicator target)
      in if length data < 100 then Returns None
         else
           (case mi_score_and_upper L (map fst data) (map snd data) discrete of
              Raises \<Rightarrow> Raises
            | Returns (mi_score, upper_mi) \<Rightarrow>
                Returns (Some \<lparr>mutual_information = mi_score,
                                normalized_mi = (if upper_mi > 0 then mi_score / upper_mi else 0),
                                max_possible_mi = upper_mi\<rparr>)))"

definition calculate_transfer_entropy ::
  "libs \<Rightarrow> npfloat list \<Rightarrow> npfloat list \<Rightarrow> nat \<Rightarrow> nat \<Rightarrow> real attempt" where
  "calculate_transfer_entropy L indicator target lag bins =
     (let n = length target
      in if n < lag + 100 then Returns 0
         else lib_transfer_entropy L indicator target lag bins)"

fun np_square :: "npfloat \<Rightarrow> npfloat" where
  "np_square (Fin a) = Fin (a * a)"
| "np_square PosInf = PosInf"
| "np_square NegInf = PosInf"
| "np_square NaN = NaN"

record predictive_entry =
  p_information_gain :: real
  p_gain_ratio :: real
  p_symmetric_uncertainty :: real
  p_reduction_ratio :: real
  p_mutual_info_regression :: real
  p_normalized_mi_regression :: real
  p_mutual_info_classification :: real
  p_normalized_mi_classification :: real
  p_transfer_entropy :: real
  p_correlation :: npfloat
  p_correlation_squared :: npfloat

text \<open>\<open>d.get(key, 0)\<close> on a result that may be the empty dictionary.\<close>

definition get_or_0 :: "'a option \<Rightarrow> ('a \<Rightarrow> real) \<Rightarrow> real" where
  "get_or_0 d field = (case d of None \<Rightarrow> 0 | Some r \<Rightarrow> field r)"

text \<open>
  The body of the loop over \<open>horizons\<close>: the value stored under \<open>results[horizon]\<close>, or
  the exception of the first call that raises.
\<close>

definition predictive_entry_for ::
  "libs \<Rightarrow> npfloat list \<Rightarrow> npfloat list \<Rightarrow> nat \<Rightarrow> predictive_entry attempt" where
  "predictive_entry_for L indicator_col price_col horizon =
     (let future_return = lib_pct_change_shift L price_col horizon
      in case calculate_information_gain L indicator_col future_return 10 of
           Raises \<Rightarrow> Raises
         | Returns ig_continuous \<Rightarrow>
        (case calculate_mutual_information L indicator_col future_return False of
           Raises \<Rightarrow> Raises
         | Returns mi_regression \<Rightarrow>
        (case calculate_mutual_information L indicator_col future_return True of
           Raises \<Rightarrow> Raises
         | Returns mi_classification \<Rightarrow>
        (case calculate_transfer_entropy L indicator_col future_return horizon 5 of
           Raises \<Rightarrow> Raises
         | Returns te_score \<Rightarrow>
        (let correlation = lib_corr L indicator_col future_return
         in Returns
              \<lparr>p_information_gain = get_or_0 ig_continuous information_gain,
               p_gain_ratio = get_or_0 ig_continuous gain_ratio,
               p_symmetric_uncertainty = get_or_0 ig_continuous symmetric_uncertainty,
               p_reduction_ratio = get_or_0 ig_continuous reduction_ratio,
               p_mutual_info_regression = get_or_0 mi_regression mutual_information,
               p_normalized_mi_regression = get_or_0 mi_regression normalized_mi,
               p_mutual_info_classification = get_or_0 mi_classification mutual_information,
               p_normalized_mi_classification = get_or_0 mi_classification normalized_mi,
               p_transfer_entropy = te_score,
               p_correlation = correlation,
               p_correlation_squared = np_square correlation\<rparr>)))))"

text \<open>
  \<open>analyze_predictive_information\<close> on the merged frame (the inner join of indicator and
  price, one pair per shared timestamp). The loop has no \<open>try\<close>: the first horizon whose
  body raises ends the method, and no map is returned.
\<close>

fun predictive_loop ::
  "libs \<Rightarrow> npfloat list \<Rightarrow> npfloat list \<Rightarrow> nat list \<Rightarrow> (nat \<times> predictive_entry) list \<Rightarrow>
   (nat \<times> predictive_entry) list attempt" where
  "predictive_loop L indicator_col price_col [] results = Returns results"
| "predictive_loop L indicator_col price_col (horizon # rest) results =
     (case predictive_entry_for L indicator_col price_col horizon of
        Raises \<Rightarrow> Raises
      | Returns entry \<Rightarrow>
          predictive_loop L indicator_col price_col rest (dict_set results horizon entry))"

definition analyze_predictive_information ::
  "libs \<Rightarrow> (npfloat \<times> npfloat) list \<Rightarrow> nat list \<Rightarrow> (nat \<times> predictive_entry) list attempt"
  where
  "analyze_predictive_information L data horizons =
     predictive_loop L (map fst data) (map snd data) horizons []"

text \<open>The number of rows of two aligned columns with no NaN on either side.\<close>

definition valid_rows :: "npfloat list \<Rightarrow> npfloat list \<Rightarrow> nat" where
  "valid_rows indicator target =
     length (filter (\<lambda>(a, b). \<not> isnan a \<and> \<not> isnan b) (zip indicator target))"

subsection \<open>GlassnodeAdvancedAnalyzer.calculate\_information\_gain\_multi\_horizon\<close>

text \<open>Float division and subtraction as numpy computes them, and \<open>fillna(0)\<close>.\<close>

fun np_div :: "npfloat \<Rightarrow> npfloat \<Rightarrow> npfloat" where
  "np_div NaN y = NaN"
| "np_div x NaN = NaN"
| "np_div (Fin a) (Fin b) =
     (if b \<noteq> 0 then Fin (a / b)
      else if a > 0 then PosInf else if a < 0 then NegInf else NaN)"
| "np_div (Fin a) y = Fin 0"
| "np_div PosInf (Fin b) = (if b \<ge> 0 then PosInf else NegInf)"
| "np_div NegInf (Fin b) = (if b \<ge> 0 then NegInf else PosInf)"
| "np_div x y = NaN"

fun np_minus_one :: "npfloat \<Rightarrow> npfloat" where
  "np_minus_one (Fin a) = Fin (a - 1)"
| "np_minus_one x = x"

fun fillna_0 :: "npfloat \<Rightarrow> npfloat" where
  "fillna_0 NaN = Fin 0"
| "fillna_0 x = x"

text \<open>\<open>np.bincount(xs, minlength)\<close> and scipy's \<open>entropy(pk)\<close> (natural logarithm).\<close>

definition np_bincount :: "nat list \<Rightarrow> nat \<Rightarrow> nat list" where
  "np_bincount xs minlength =
     map (\<lambda>i. count_list xs i)
       [0 ..< max minlength (if xs = [] then 0 else Suc (fold max xs 0))]"

definition scipy_entropy :: "real list \<Rightarrow> real" where
  "scipy_entropy pk =
     (let s = sum_list pk
      in \<Sum>p \<leftarrow> pk. (if p / s > 0 then - (p / s) * ln (p / s) else 0))"

text \<open>
  The loop over \<open>range(n_bins)\<close> that accumulates \<open>H_conditional\<close>. A NaN label of the
  indicator equals no bin number, so its row is in no mask.
\<close>

fun H_conditional_loop ::
  "nat option list \<Rightarrow> nat list \<Rightarrow> nat \<Rightarrow> nat list \<Rightarrow> real \<Rightarrow> real" where
  "H_conditional_loop indicator_bins price_bins n_bins [] acc = acc"
| "H_conditional_loop indicator_bins price_bins n_bins (i # rest) acc =
     (let msk = map (\<lambda>b. b = Some i) indicator_bins;
          mask_sum = length (filter (\<lambda>b. b) msk);
          p_indicator = real mask_sum / real (length indicator_bins)
      in if p_indicator > 0 \<and> mask_sum > 1 then
           (let price_in_bin = select_mask price_bins msk
            in if length price_in_bin > 0 then
                 (let bin_probs = map (\<lambda>c. real c / real (length price_in_bin))
                                    (np_bincount price_in_bin n_bins);
                      h = scipy_entropy bin_probs
                  in H_conditional_loop indicator_bins price_bins n_bins rest
                       (acc + p_indicator * h))
               else H_conditional_loop indicator_bins price_bins n_bins rest acc)
         else H_conditional_loop indicator_bins price_bins n_bins rest acc)"

text \<open>The rows of the frame with a value in both series (the first \<open>dropna\<close>).\<close>

definition aligned_rows :: "(npfloat \<times> npfloat) list \<Rightarrow> (npfloat \<times> npfloat) list" where
  "aligned_rows frame = filter (\<lambda>(a, b). \<not> isnan a \<and> \<not> isnan b) frame"

text \<open>
  The columns \<open>future_price\<close> and \<open>price_change\<close> are added and the rows with a NaN are
  dropped again; what is kept of a row is its indicator, future price and price change.
\<close>

definition build_target ::
  "(npfloat \<times> npfloat) list \<Rightarrow> nat \<Rightarrow> (npfloat \<times> npfloat \<times> npfloat) list" where
  "build_target df horizon =
     (let price = map snd df;
          future_price =
            map (\<lambda>t. if t + horizon < length price then price ! (t + horizon) else NaN)
              [0 ..< length price];
          price_change =
            map (\<lambda>(f, p). fillna_0 (np_minus_one (np_div f p))) (zip future_price price);
          rows = zip (map fst df) (zip future_price price_change)
      in filter (\<lambda>(a, f, c). \<not> isnan f \<and> \<not> isnan c) rows)"

text \<open>
  The discretisation and the scores. \<open>None\<close> stands for \<open>continue\<close>: it is reached when
  \<open>qcut\<close> raises (the inner \<open>try\<close>), and when a price label is NaN, since \<open>np.bincount\<close>
  then raises on the float array and the outer \<open>try\<close> catches it.
\<close>

definition score_rows ::
  "libs \<Rightarrow> (npfloat \<times> npfloat \<times> npfloat) list \<Rightarrow> horizon_result option" where
  "score_rows L df =
     (let n_bins = 10
      in case (lib_qcut L (map fst df) n_bins,
               lib_qcut L (map (\<lambda>(a, f, c). c) df) n_bins) of
           (Returns indicator_bins, Returns price_labels) \<Rightarrow>
             if \<not> list_all (\<lambda>l. l \<noteq> None) price_labels then None
             else
               (let price_bins = map the price_labels;
                    H_price =
                      scipy_entropy
                        (map (\<lambda>c. real c / real (length price_bins))
                           (np_bincount price_bins 0));
                    H_conditional =
                      H_conditional_loop indicator_bins price_bins n_bins [0 ..< n_bins] 0;
                    ig = max 0 (H_price - H_conditional);
                    normalized = (if H_price > 0 then ig / H_price else 0);
                    correlation = lib_corr L (map fst df) (map (\<lambda>(a, f, c). c) df)
                in Some \<lparr>h_information_gain = ig,
                         h_normalized_mi = normalized,
                         h_correlation = correlation,
                         h_entropy_price = H_price,
                         h_entropy_conditional = H_conditional,
                         h_reduction_ratio = (if H_price > 0 then ig / H_price else 0),
                         h_sample_size = length df\<rparr>)
         | _ \<Rightarrow> None)"

text \<open>
  The body of the loop over \<open>horizons\<close>, on the frame built from the two series (one
  row per timestamp, NaN where a series has no value). \<open>None\<close> stands for \<open>continue\<close>: the
  horizon gets no entry.
\<close>

definition scan_horizon ::
  "libs \<Rightarrow> (npfloat \<times> npfloat) list \<Rightarrow> nat \<Rightarrow> horizon_result option" where
  "scan_horizon L frame horizon =
     (let df = aligned_rows frame
      in if length df < 100 then None
         else
           (let df = build_target df horizon
            in if length df < 50 then None
               else score_rows L df))"

definition default_horizons :: "nat list" where
  "default_horizons = [1, 2, 3, 5, 7, 10, 14, 21, 30, 45, 60]"

definition calculate_information_gain_multi_horizon ::
  "libs \<Rightarrow> (npfloat \<times> npfloat) list \<Rightarrow> nat list option \<Rightarrow> (nat \<times> horizon_result) list" where
  "calculate_information_gain_multi_horizon L frame horizons =
     (let horizons = (case horizons of None \<Rightarrow> default_horizons | Some hs \<Rightarrow> hs)
      in fold (\<lambda>horizon results.
                 case scan_horizon L frame horizon of
                   None \<Rightarrow> results
                 | Some r \<Rightarrow> dict_set results horizon r)
           horizons [])"

subsection \<open>A three-row example\<close>

text \<open>
  On a frame of three rows the first scan reaches two library calls only:
  \<open>pct_change(h).shift(-h)\<close>, which on a price column without NaN is the forward
  return with NaN in the last \<open>h\<close> rows, and \<open>corr\<close>, which is NaN here because the two
  forward returns are equal. Every other entry of the record is set to raise, so a result
  that is returned shows that none of them was called.
\<close>

definition forward_return :: "npfloat list \<Rightarrow> nat \<Rightarrow> npfloat list" where
  "forward_return price_col h =
     map (\<lambda>t. if t + h < length price_col
               then np_minus_one (np_div (price_col ! (t + h)) (price_col ! t))
               else NaN)
       [0 ..< length price_col]"

definition three_row_libs :: libs where
  "three_row_libs =
     \<lparr>lib_qcut = (\<lambda>xs bins. Raises),
      lib_cut = (\<lambda>xs bins. Raises),
      lib_pct_change_shift = forward_return,
      lib_corr = (\<lambda>xs ys. NaN),
      lib_kbins = (\<lambda>xs bins. Raises),
      lib_histogram = (\<lambda>xs bins. Raises),
      lib_mutual_info_regression = (\<lambda>xs ys. Raises),
      lib_mutual_info_classif = (\<lambda>xs ys. Raises),
      lib_transfer_entropy = (\<lambda>xs ys lag bins. Raises)\<rparr>"

definition three_rows :: "(npfloat \<times> npfloat) list" where
  "three_rows = [(Fin 1, Fin 10), (Fin 2, Fin 20), (Fin 3, Fin 40)]"

text \<open>
  A frame of 101 rows with a constant indicator and a constant price has 100 valid rows at
  horizon 1, so there the discretisers are called; in the record above they raise.
\<close>

definition constant_rows :: "(npfloat \<times> npfloat) list" where
  "constant_rows = replicate 101 (Fin 1, Fin 10)"

section \<open>BacktestEngine instances in a store\<close>




































section \<open>Auxiliary facts about sums over lists\<close>

lemma sum_list_pos_real:
  fixes f :: "'a \<Rightarrow> real"
  shows "xs \<noteq> [] \<Longrightarrow> \<forall>x \<in> set xs. 0 < f x \<Longrightarrow> 0 < sum_list (map f xs)"
proof (induction xs)
  case Nil
  then show ?case by simp
next
  case (Cons a xs)
  have "0 \<le> sum_list (map f xs)"
    using Cons.prems(2) by (intro sum_list_nonneg) (auto intro: less_imp_le)
  moreover have "0 < f a" using Cons.prems(2) by simp
  ultimately show ?case by simp
qed

lemma sum_list_div_const:
  fixes f :: "'a \<Rightarrow> real"
  shows "(\<Sum>x \<leftarrow> xs. f x / c) = (\<Sum>x \<leftarrow> xs. f x) / c"
  by (induction xs) (simp_all add: add_divide_distrib)

lemma real_sum_list:
  fixes f :: "'a \<Rightarrow> nat"
  shows "real (\<Sum>z \<leftarrow> zs. f z) = (\<Sum>z \<leftarrow> zs. real (f z))"
  by (induction zs) simp_all

section \<open>Properties of the BacktestEngine\<close>

lemmas engine_defs = execute_trade_def adjust_position_def target_position_def
  append_equity_def BacktestEngine_init_def Let_def

lemma engine_after_hold_eq:
  "engine_after_hold =
     \<lparr>initial_capital = 10000, capital = 10000, position = 0,
      trades = [\<lparr>t_date = 5, t_price = 100, t_signal = 0, t_type = HOLD,
                 t_position = 0, t_capital = 10000, t_pnl = 0\<rparr>],
      equity_curve = [\<lparr>e_date = 5, e_price = 100, e_capital = 10000,
                       e_position = 0, e_signal = 0\<rparr>]\<rparr>"
  by (simp add: engine_after_hold_def engine_defs)

lemma position_adjust: "position (adjust_position s d p sg) = target_position s sg"
  by (simp add: adjust_position_def Let_def)

lemma target_position_cases: "target_position s sg \<in> {0, 0.3, 0.6, 1.0, position s}"
  by (simp add: target_position_def)

lemma position_execute:
  "position (outcome_state (execute_trade s d p sg)) = target_position s sg"
  by (simp add: execute_trade_def Let_def append_equity_def position_adjust)

subsection \<open>C1: the capital update\<close>

text \<open>
  C1 as stated fails. The engine holds position 0 after a first neutral step at price 100;
  the next step, at price 110 with signal 2, moves the position to 1 before the capital is
  updated, and the capital becomes 11000. With the position held before the adjustment
  (0) it would have stayed 10000.
\<close>

theorem execute_trade_prev_position_counterexample:
  "equity_curve engine_after_hold \<noteq> [] \<and> position engine_after_hold = 0 \<and>
   capital engine_after_hold = 10000 \<and>
   (case execute_trade engine_after_hold 6 110 2 of
      Returned s' \<Rightarrow> capital s' = 11000 \<and> position s' = 1
    | Raised e s' \<Rightarrow> False) \<and>
   capital (outcome_state (execute_trade engine_after_hold 6 110 2)) \<noteq>
     capital engine_after_hold *
       (1 + position engine_after_hold *
            (110 / e_price (last (equity_curve engine_after_hold)) - 1))"
  by (simp add: engine_after_hold_eq engine_defs)

text \<open>
  C1 (amended): when a prior equity point exists and its price is not zero, the call
  returns, and the capital is multiplied by 1 plus the price return since the previous
  step scaled by the position as it is after this step's signal-driven adjustment (the
  target position of this step): capital' = capital * (1 + position' * (price/price\_prev - 1)).
\<close>

theorem execute_trade_capital_update:
  assumes "equity_curve s \<noteq> []" and "e_price (last (equity_curve s)) \<noteq> 0"
  shows "\<exists>s'. execute_trade s d p sg = Returned s' \<and>
           position s' = target_position s sg \<and>
           capital s' =
             capital s * (1 + position s' * (p / e_price (last (equity_curve s)) - 1))"
  using assms
  by (simp add: execute_trade_def adjust_position_def Let_def append_equity_def
        diff_divide_distrib)

theorem execute_trade_capital_update_witness:
  "equity_curve engine_after_hold \<noteq> [] \<and>
   e_price (last (equity_curve engine_after_hold)) \<noteq> 0 \<and>
   (\<exists>s'. execute_trade engine_after_hold 6 110 2 = Returned s' \<and>
      position s' = 1 \<and> capital s' = 10000 * (1 + position s' * (110 / 100 - 1)))"
proof -
  have h1: "equity_curve engine_after_hold \<noteq> []"
    by (simp add: engine_after_hold_eq)
  have h2: "e_price (last (equity_curve engine_after_hold)) \<noteq> 0"
    by (simp add: engine_after_hold_eq)
  have t: "target_position engine_after_hold 2 = 1"
    by (simp add: target_position_def)
  have c: "capital engine_after_hold = 10000"
    and p: "e_price (last (equity_curve engine_after_hold)) = 100"
    by (simp_all add: engine_after_hold_eq)
  show ?thesis
    using execute_trade_capital_update [OF h1 h2, of 6 110 2] h1 h2
    unfolding t c p by blast
qed

subsection \<open>C2: timestamps out of order\<close>

text \<open>
  C2 as stated fails. The engine's last equity point has date 5; a tuple with the earlier
  date 3 is accepted: a trade and an equity point are appended, the capital goes from
  10000 to 11000 and the position from 0 to 1.
\<close>

theorem execute_trade_out_of_order_counterexample:
  "e_date (last (equity_curve engine_after_hold)) = 5 \<and>
   execute_trade engine_after_hold 3 110 2 = Returned
     \<lparr>initial_capital = 10000, capital = 11000, position = 1,
      trades = [\<lparr>t_date = 5, t_price = 100, t_signal = 0, t_type = HOLD,
                 t_position = 0, t_capital = 10000, t_pnl = 0\<rparr>,
                \<lparr>t_date = 3, t_price = 110, t_signal = 2, t_type = BUY,
                 t_position = 1, t_capital = 10000, t_pnl = 0\<rparr>],
      equity_curve = [\<lparr>e_date = 5, e_price = 100, e_capital = 10000,
                       e_position = 0, e_signal = 0\<rparr>,
                      \<lparr>e_date = 3, e_price = 110, e_capital = 11000,
                       e_position = 1, e_signal = 2\<rparr>]\<rparr> \<and>
   outcome_state (execute_trade engine_after_hold 3 110 2) \<noteq> engine_after_hold"
  by (simp add: engine_after_hold_eq engine_defs)

text \<open>
  C2 (amended): \<open>execute_trade\<close> makes no chronological check. Whatever the timestamp, in
  order or not, the call appends exactly one trade carrying that timestamp; when there is
  no prior equity point or the prior price is not zero it returns and appends exactly one
  equity point carrying that timestamp; and the resulting position and capital are the
  same as for any other timestamp.
\<close>

theorem execute_trade_no_order_check:
  "(\<exists>t. trades (outcome_state (execute_trade s d p sg)) = trades s @ [t] \<and> t_date t = d) \<and>
   (equity_curve s = [] \<or> e_price (last (equity_curve s)) \<noteq> 0 \<longrightarrow>
      (\<exists>s' pt. execute_trade s d p sg = Returned s' \<and>
         equity_curve s' = equity_curve s @ [pt] \<and> e_date pt = d)) \<and>
   position (outcome_state (execute_trade s d p sg)) =
     position (outcome_state (execute_trade s d0 p sg)) \<and>
   capital (outcome_state (execute_trade s d p sg)) =
     capital (outcome_state (execute_trade s d0 p sg))"
  by (auto simp: execute_trade_def adjust_position_def append_equity_def Let_def)

theorem execute_trade_no_order_check_witness:
  "e_date (last (equity_curve engine_after_hold)) = 5 \<and>
   (\<exists>s' pt. execute_trade engine_after_hold 3 110 2 = Returned s' \<and>
      equity_curve s' = equity_curve engine_after_hold @ [pt] \<and> e_date pt = 3) \<and>
   capital (outcome_state (execute_trade engine_after_hold 3 110 2)) =
     capital (outcome_state (execute_trade engine_after_hold 6 110 2))"
proof -
  have h: "e_price (last (equity_curve engine_after_hold)) \<noteq> 0"
    and d: "e_date (last (equity_curve engine_after_hold)) = 5"
    by (simp_all add: engine_after_hold_eq)
  show ?thesis
    using execute_trade_no_order_check [of engine_after_hold 3 110 2 6] h d by blast
qed

subsection \<open>C6: the win rate\<close>

lemma win_rate_loop_count:
  "win_rate_loop ts (w, t) =
     (w + length (filter (\<lambda>(a, b). t_capital b > t_capital a) (adjacent_buy_sell ts)),
      t + length (adjacent_buy_sell ts))"
  by (induction ts "(w, t)" arbitrary: w t rule: win_rate_loop.induct)
     (auto simp: adjacent_buy_sell_def)

text \<open>
  C6 as stated fails. The run BUY (signal 1 at price 100), HOLD (signal 0 at 110),
  SELL (signal -2 at 121) logs capitals 10000, 10000 and 10600: one round trip, won, with
  one HOLD record in between. The specification's win rate is 1; the code finds no
  BUY immediately followed by a SELL and returns 0.
\<close>

theorem calculate_win_rate_hold_between_counterexample:
  "map t_type (trades buy_hold_sell_run) = [BUY, HOLD, SELL] \<and>
   map t_capital (trades buy_hold_sell_run) = [10000, 10000, 10600] \<and>
   spec_win_rate buy_hold_sell_run = 1 \<and>
   calculate_win_rate buy_hold_sell_run = 0 \<and>
   calculate_win_rate buy_hold_sell_run \<noteq> spec_win_rate buy_hold_sell_run \<and>
   calculate_win_rate buy_hold_sell_run \<noteq> 100 * spec_win_rate buy_hold_sell_run"
  by (simp add: buy_hold_sell_run_def engine_defs calculate_win_rate_def
        spec_win_rate_def spec_round_trips_def)

text \<open>
  C6 (amended): \<open>calculate_win_rate\<close> is 100 times the fraction, among the pairs of
  adjacent trade-log records that are a BUY immediately followed by a SELL (no HOLD
  record in between), of those whose recorded capital at the SELL is higher than at the
  BUY; it is 0 when the log has no such pair.
\<close>

theorem calculate_win_rate_adjacent:
  "calculate_win_rate s =
     (if adjacent_buy_sell (trades s) = [] then 0
      else real (length (filter (\<lambda>(a, b). t_capital b > t_capital a)
                           (adjacent_buy_sell (trades s))))
           / real (length (adjacent_buy_sell (trades s))) * 100)"
  by (simp add: calculate_win_rate_def win_rate_loop_count)

theorem calculate_win_rate_adjacent_witness:
  "adjacent_buy_sell (trades buy_hold_sell_run) = [] \<and>
   calculate_win_rate buy_hold_sell_run = 0"
proof -
  have "adjacent_buy_sell (trades buy_hold_sell_run) = []"
    by (simp add: buy_hold_sell_run_def engine_defs adjacent_buy_sell_def)
  then show ?thesis
    using calculate_win_rate_adjacent [of buy_hold_sell_run] by simp
qed

subsection \<open>C10: the position levels\<close>

lemma call_sequence_position_levels:
  "position s \<in> {0, 0.3, 0.6, 1.0} \<Longrightarrow>
   position (call_sequence s xs) \<in> {0, 0.3, 0.6, 1.0}"
proof (induction xs arbitrary: s)
  case Nil
  then show ?case by simp
next
  case (Cons x xs)
  obtain d p sg where x: "x = (d, p, sg)" by (cases x) auto
  have "position (outcome_state (execute_trade s d p sg)) \<in> {0, 0.3, 0.6, 1.0}"
    using Cons.prems target_position_cases [of s sg] by (auto simp: position_execute)
  then show ?case using Cons.IH x by simp
qed

text \<open>
  C10: starting from a fresh engine, after every sequence of \<open>execute_trade\<close> calls with
  arbitrary real signals and prices (a call that raises included), the position is one of
  0, 0.3, 0.6 and 1.0.
\<close>

theorem position_levels:
  "position (call_sequence (BacktestEngine_init c) xs) \<in> {0, 0.3, 0.6, 1.0}"
  by (rule call_sequence_position_levels) (simp add: BacktestEngine_init_def)

theorem position_levels_witness:
  "position (call_sequence (BacktestEngine_init 10000) [(1, 100, 1), (2, 110, - 1)]) = 0.3"
proof -
  have "position (call_sequence (BacktestEngine_init 10000) [(1, 100, 1), (2, 110, - 1)])
          = 0.3"
    by (simp add: engine_defs)
  then show ?thesis
    using position_levels [of 10000 "[(1, 100, 1), (2, 110, - 1)]"] by simp
qed

section \<open>Properties of the SignalGenerator\<close>

lemma nvt_thresholds:
  "map_of thresholds ''NVT'' =
     Some \<lparr>strong_buy = 40, buy = 50, neutral_low = 70, neutral_high = 90,
           sell = 100, strong_sell = 120\<rparr>"
  by (simp add: thresholds_def)

subsection \<open>C4: the NVT branch\<close>

text \<open>
  C4 as stated fails. The value 30 lies in the lowest zone of the NVT table; the NVT branch
  returns 2 there, which is what the branch of the other indicators returns for that zone,
  not its negation.
\<close>

theorem generate_signal_nvt_counterexample:
  "generate_signal 30 ''NVT'' = 2 \<and>
   normal_logic (the (map_of thresholds ''NVT'')) 30 = 2 \<and>
   generate_signal 30 ''NVT'' \<noteq> - normal_logic (the (map_of thresholds ''NVT'')) 30"
  by (simp add: generate_signal_def nvt_thresholds nvt_logic_def normal_logic_def)

text \<open>
  C4 (amended): for every registered indicator, NVT included, and every input value,
  \<open>generate_signal\<close> applies the same ascending-threshold lookup with the same
  zone-to-signal mapping: the NVT branch returns, for each zone, the same signal a
  non-inverted indicator gets for that zone (no reversal).
\<close>

theorem generate_signal_same_mapping:
  "map_of thresholds indicator = Some th \<Longrightarrow>
   generate_signal val indicator = normal_logic th val"
  by (simp add: generate_signal_def nvt_logic_def normal_logic_def)

theorem generate_signal_same_mapping_witness:
  "map_of thresholds ''NVT'' \<noteq> None \<and>
   generate_signal 110 ''NVT'' = normal_logic (the (map_of thresholds ''NVT'')) 110 \<and>
   generate_signal 110 ''NVT'' = - 2"
proof -
  have "normal_logic \<lparr>strong_buy = 40, buy = 50, neutral_low = 70, neutral_high = 90,
           sell = 100, strong_sell = 120\<rparr> 110 = - 2"
    by (simp add: normal_logic_def)
  then show ?thesis
    using generate_signal_same_mapping [OF nvt_thresholds, of 110]
    by (simp add: nvt_thresholds)
qed

subsection \<open>C8: the composite signal\<close>

lemma weight_pos: "map_of weights k = Some w \<Longrightarrow> 0 < w"
  by (auto simp: weights_def split: if_splits)

lemma weight_of_pos: "map_of weights k \<noteq> None \<Longrightarrow> 0 < weight_of k"
  by (auto simp: weight_of_def dest: weight_pos)

lemma weight_of_nonneg: "0 \<le> weight_of k"
  by (auto simp: weight_of_def split: option.splits dest: weight_pos intro: less_imp_le)

lemma composite_loop_sums:
  "composite_loop signals (c, t) =
     (c + (\<Sum>(k, s) \<leftarrow> present_weighted signals. real_of_int s * weight_of k),
      t + (\<Sum>(k, s) \<leftarrow> present_weighted signals. weight_of k))"
  by (induction signals "(c, t)" arbitrary: c t rule: composite_loop.induct)
     (auto simp: present_weighted_def weight_of_def split: option.splits)

lemma total_weight_pos:
  "present_weighted signals \<noteq> [] \<Longrightarrow>
   0 < (\<Sum>(k, s) \<leftarrow> present_weighted signals. weight_of k)"
  by (rule sum_list_pos_real) (auto simp: present_weighted_def intro: weight_of_pos)

lemma weighted_sum_bounds:
  fixes xs :: "(string \<times> int) list"
  assumes "\<forall>(k, s) \<in> set xs. - 2 \<le> s \<and> s \<le> 2 \<and> 0 \<le> weight_of k"
  shows "- 2 * (\<Sum>(k, s) \<leftarrow> xs. weight_of k) \<le> (\<Sum>(k, s) \<leftarrow> xs. real_of_int s * weight_of k)
       \<and> (\<Sum>(k, s) \<leftarrow> xs. real_of_int s * weight_of k) \<le> 2 * (\<Sum>(k, s) \<leftarrow> xs. weight_of k)"
  using assms
proof (induction xs)
  case Nil
  then show ?case by simp
next
  case (Cons a xs)
  obtain k s where a: "a = (k, s)" by (cases a) auto
  have s: "- 2 \<le> real_of_int s" "real_of_int s \<le> 2" and w: "0 \<le> weight_of k"
    using Cons.prems a by auto
  have "- 2 * weight_of k \<le> real_of_int s * weight_of k"
    using s w by (intro mult_right_mono) auto
  moreover have "real_of_int s * weight_of k \<le> 2 * weight_of k"
    using s w by (intro mult_right_mono) auto
  moreover have "- 2 * (\<Sum>(k, s) \<leftarrow> xs. weight_of k) \<le> (\<Sum>(k, s) \<leftarrow> xs. real_of_int s * weight_of k)
       \<and> (\<Sum>(k, s) \<leftarrow> xs. real_of_int s * weight_of k) \<le> 2 * (\<Sum>(k, s) \<leftarrow> xs. weight_of k)"
    using Cons by simp
  ultimately show ?case using a by (simp add: algebra_simps)
qed

text \<open>
  C8: for every dictionary of integer signals in -2..2, \<open>generate_composite_signal\<close>
  returns the weighted sum of the signals of the indicators that have a weight, each
  weight divided by the total weight of exactly those indicators; the result lies in
  [-2, 2]; when no weighted indicator is present it returns 0.
\<close>

theorem generate_composite_signal_renormalized:
  assumes "\<forall>(indicator, signal) \<in> set signals. - 2 \<le> signal \<and> signal \<le> 2"
  shows "generate_composite_signal signals =
           (if present_weighted signals = [] then 0
            else (\<Sum>(k, s) \<leftarrow> present_weighted signals.
                    real_of_int s *
                    (weight_of k / (\<Sum>(k, s) \<leftarrow> present_weighted signals. weight_of k))))
         \<and> - 2 \<le> generate_composite_signal signals
         \<and> generate_composite_signal signals \<le> 2"
proof (cases "present_weighted signals = []")
  case True
  then show ?thesis by (simp add: generate_composite_signal_def composite_loop_sums)
next
  case False
  let ?W = "\<Sum>(k, s) \<leftarrow> present_weighted signals. weight_of k"
  let ?C = "\<Sum>(k, s) \<leftarrow> present_weighted signals. real_of_int s * weight_of k"
  have W: "0 < ?W" using False by (rule total_weight_pos)
  have g: "generate_composite_signal signals = ?C / ?W"
    using W by (simp add: generate_composite_signal_def composite_loop_sums)
  have "(\<Sum>(k, s) \<leftarrow> present_weighted signals. real_of_int s * (weight_of k / ?W)) = ?C / ?W"
    by (simp add: split_def sum_list_div_const)
  moreover have "\<forall>(k, s) \<in> set (present_weighted signals).
                   - 2 \<le> s \<and> s \<le> 2 \<and> 0 \<le> weight_of k"
    using assms by (auto simp: present_weighted_def weight_of_nonneg)
  then have "- 2 * ?W \<le> ?C \<and> ?C \<le> 2 * ?W" by (rule weighted_sum_bounds)
  then have "- 2 \<le> ?C / ?W \<and> ?C / ?W \<le> 2"
    using W by (simp add: pos_le_divide_eq pos_divide_le_eq)
  ultimately show ?thesis using False g by simp
qed

theorem generate_composite_signal_renormalized_witness:
  "generate_composite_signal [(''MVRV'', 2), (''Other'', - 2), (''NVT'', - 1)] = 4 / 3 \<and>
   - 2 \<le> generate_composite_signal [(''MVRV'', 2), (''Other'', - 2), (''NVT'', - 1)] \<and>
   generate_composite_signal [(''MVRV'', 2), (''Other'', - 2), (''NVT'', - 1)] \<le> 2"
proof -
  have h: "\<forall>(indicator, signal) \<in> set [(''MVRV'', 2), (''Other'', - 2), (''NVT'', - 1)].
             - 2 \<le> signal \<and> signal \<le> (2::int)"
    by simp
  have v: "generate_composite_signal [(''MVRV'', 2), (''Other'', - 2), (''NVT'', - 1)] = 4 / 3"
    by (simp add: generate_composite_signal_def weights_def)
  show ?thesis
    using generate_composite_signal_renormalized [OF h] v by blast
qed

section \<open>Properties of the InformationGainAnalyzer\<close>

subsection \<open>C5: the information gain\<close>

lemma count_list_replicate: "count_list (replicate n x) y = (if x = y then n else 0)"
  by (induction n) auto

lemma remdups_replicate_single: "remdups (replicate n x) = (if n = 0 then [] else [x])"
  by (induction n) auto

lemma filter_eq_replicate: "filter (\<lambda>a. a = x) xs = replicate (count_list xs x) x"
  by (induction xs) auto

lemma select_eq:
  "length xs = length ys \<Longrightarrow>
   select_mask ys (map (\<lambda>a. a = x) xs) = map snd (filter (\<lambda>(a, b). a = x) (zip xs ys))"
  unfolding select_mask_def
  by (induction xs ys rule: list_induct2) auto

lemma mask_empty:
  "(filter (\<lambda>b. b) (map (\<lambda>a. a = x) xs) = []) = (count_list xs x = 0)"
  by (induction xs) auto

lemma entropy_of_probs_smoothed: "entropy_of_probs (value_counts ys) = smoothed_entropy ys"
  by (simp add: entropy_of_probs_def smoothed_entropy_def)

lemma loop_sum_gen:
  assumes "length xs = length ys"
  shows "conditional_entropy_loop xs ys ps acc =
     acc + (\<Sum>(x, p) \<leftarrow> ps.
              if count_list xs x > 0
              then p * smoothed_entropy (map snd (filter (\<lambda>(a, b). a = x) (zip xs ys)))
              else 0)"
  using assms
  by (induction ps arbitrary: acc)
     (auto simp: Let_def mask_empty select_eq entropy_of_probs_smoothed)

lemma loop_sum:
  assumes "length xs = length ys"
  shows "conditional_entropy_loop xs ys (value_counts xs) 0 = smoothed_conditional_entropy xs ys"
proof -
  have "(\<Sum>(x, p) \<leftarrow> value_counts xs.
           if count_list xs x > 0
           then p * smoothed_entropy (map snd (filter (\<lambda>(a, b). a = x) (zip xs ys)))
           else 0)
      = smoothed_conditional_entropy xs ys"
    unfolding smoothed_conditional_entropy_def
    by (rule arg_cong [where f = sum_list], rule map_cong)
       (auto simp: value_counts_def count_list_0_iff)
  then show ?thesis using loop_sum_gen [OF assms, of "value_counts xs" 0] by simp
qed

lemma information_gain_eq:
  assumes "length xs = length ys"
  shows "information_gain (information_gain_of_labels xs ys) =
           max 0 (smoothed_entropy ys - smoothed_conditional_entropy xs ys)"
  by (simp add: information_gain_of_labels_def Let_def loop_sum [OF assms]
        entropy_of_probs_smoothed)

lemma value_counts_prob:
  assumes "(v, p) \<in> set (value_counts xs)"
  shows "0 < p \<and> p \<le> 1"
proof -
  from assms have v: "v \<in> set xs" and p: "p = real (count_list xs v) / real (length xs)"
    by (auto simp: value_counts_def)
  from v have "count_list xs v \<noteq> 0" by (simp add: count_list_0_iff)
  then have "0 < count_list xs v" by simp
  moreover have "count_list xs v \<le> length xs" by (rule count_le_length)
  moreover from v have "0 < length xs" by (cases xs) auto
  ultimately show ?thesis using p by simp
qed

lemma value_counts_sum:
  assumes "xs \<noteq> []"
  shows "(\<Sum>(v, p) \<leftarrow> value_counts xs. p) = 1"
proof -
  have "(\<Sum>(v, p) \<leftarrow> value_counts xs. p)
          = (\<Sum>v \<leftarrow> remdups xs. real (count_list xs v) / real (length xs))"
    by (simp add: value_counts_def o_def)
  also have "\<dots> = (\<Sum>v \<leftarrow> remdups xs. real (count_list xs v)) / real (length xs)"
    by (rule sum_list_div_const)
  also have "(\<Sum>v \<leftarrow> remdups xs. real (count_list xs v))
               = real (\<Sum>v \<leftarrow> remdups xs. count_list xs v)"
    by (simp add: real_sum_list)
  also have "(\<Sum>v \<leftarrow> remdups xs. count_list xs v) = sum (count_list xs) (set xs)"
    using sum_list_distinct_conv_sum_set [of "remdups xs" "count_list xs"] by simp
  also have "\<dots> = length xs"
    by (rule sum_count_set) auto
  finally show ?thesis using assms by simp
qed

lemma smoothing_pos: "0 < smoothing"
  by (simp add: smoothing_def)

lemma log_smoothing_pos: "0 < log 2 (1 + smoothing)"
  using smoothing_pos by simp

lemma smoothed_term_upper:
  fixes p :: real
  assumes "0 < p" and "p \<le> 1"
  shows "p * log 2 (p + smoothing) \<le> p * log 2 (1 + smoothing)"
proof -
  have "log 2 (p + smoothing) \<le> log 2 (1 + smoothing)"
    using assms smoothing_pos by simp
  then show ?thesis using assms by (intro mult_left_mono) auto
qed

lemma smoothed_term_lower:
  fixes p :: real
  assumes "0 < p" and "p \<le> 1"
  shows "p * log 2 p + p * log 2 (1 + smoothing) \<le> p * log 2 (p + smoothing)"
proof -
  have "log 2 p + log 2 (1 + smoothing) = log 2 (p * (1 + smoothing))"
    using assms smoothing_pos by (simp add: log_mult)
  also have "\<dots> \<le> log 2 (p + smoothing)"
  proof -
    have "p * smoothing \<le> 1 * smoothing"
      using assms smoothing_pos by (intro mult_right_mono) auto
    then have "p * (1 + smoothing) \<le> p + smoothing"
      by (simp add: algebra_simps)
    moreover have "0 < p * (1 + smoothing)" using assms smoothing_pos by simp
    ultimately show ?thesis by simp
  qed
  finally have "p * (log 2 p + log 2 (1 + smoothing)) \<le> p * log 2 (p + smoothing)"
    using assms by (intro mult_left_mono) auto
  then show ?thesis by (simp add: algebra_simps)
qed

lemma smoothed_entropy_lower: "- log 2 (1 + smoothing) \<le> smoothed_entropy ys"
proof (cases "ys = []")
  case True
  then show ?thesis using log_smoothing_pos by (simp add: smoothed_entropy_def value_counts_def)
next
  case False
  have "(\<Sum>(v, p) \<leftarrow> value_counts ys. p * log 2 (p + smoothing))
          \<le> (\<Sum>(v, p) \<leftarrow> value_counts ys. p * log 2 (1 + smoothing))"
    by (rule sum_list_mono) (auto dest!: value_counts_prob intro: smoothed_term_upper)
  also have "\<dots> = (\<Sum>(v, p) \<leftarrow> value_counts ys. p) * log 2 (1 + smoothing)"
    by (simp add: sum_list_mult_const [symmetric] split_def)
  also have "\<dots> = log 2 (1 + smoothing)"
    using value_counts_sum [OF False] by simp
  finally show ?thesis by (simp add: smoothed_entropy_def)
qed

lemma smoothed_entropy_upper:
  assumes "ys \<noteq> []"
  shows "smoothed_entropy ys \<le> spec_entropy ys - log 2 (1 + smoothing)"
proof -
  have "(\<Sum>(v, p) \<leftarrow> value_counts ys. p * log 2 p + p * log 2 (1 + smoothing))
          \<le> (\<Sum>(v, p) \<leftarrow> value_counts ys. p * log 2 (p + smoothing))"
    by (rule sum_list_mono) (auto dest!: value_counts_prob intro: smoothed_term_lower)
  moreover have "(\<Sum>(v, p) \<leftarrow> value_counts ys. p * log 2 p + p * log 2 (1 + smoothing))
          = (\<Sum>(v, p) \<leftarrow> value_counts ys. p * log 2 p)
            + (\<Sum>(v, p) \<leftarrow> value_counts ys. p) * log 2 (1 + smoothing)"
    by (simp add: sum_list_mult_const [symmetric] split_def sum_list_addf)
  ultimately show ?thesis
    using value_counts_sum [OF assms] by (simp add: smoothed_entropy_def spec_entropy_def)
qed

lemma spec_entropy_nonneg: "0 \<le> spec_entropy ys"
proof -
  have "(\<Sum>(v, p) \<leftarrow> value_counts ys. p * log 2 p) \<le> 0"
    by (rule sum_list_nonpos) (auto dest!: value_counts_prob simp: mult_le_0_iff)
  then show ?thesis by (simp add: spec_entropy_def)
qed

lemma smoothed_conditional_entropy_lower:
  "- log 2 (1 + smoothing) \<le> smoothed_conditional_entropy xs ys"
proof (cases "xs = []")
  case True
  then show ?thesis
    using log_smoothing_pos by (simp add: smoothed_conditional_entropy_def value_counts_def)
next
  case False
  define c where "c = - log 2 (1 + smoothing)"
  let ?h = "\<lambda>x. smoothed_entropy (map snd (filter (\<lambda>(a, b). a = x) (zip xs ys)))"
  have h: "c \<le> ?h x" for x
    unfolding c_def by (rule smoothed_entropy_lower)
  have "(\<Sum>(x, p) \<leftarrow> value_counts xs. p * c) \<le> (\<Sum>(x, p) \<leftarrow> value_counts xs. p * ?h x)"
    by (rule sum_list_mono) (auto dest!: value_counts_prob intro!: mult_left_mono h)
  moreover have "(\<Sum>(x, p) \<leftarrow> value_counts xs. p * c) = (\<Sum>(x, p) \<leftarrow> value_counts xs. p) * c"
    by (simp only: sum_list_mult_const [symmetric] split_def)
  ultimately have "c \<le> smoothed_conditional_entropy xs ys"
    using value_counts_sum [OF False] by (simp add: smoothed_conditional_entropy_def)
  then show ?thesis by (simp add: c_def)
qed

lemma value_counts_two_bins: "value_counts two_bins = [(0, 1/2), (1, 1/2)]"
proof -
  have r: "remdups two_bins = [0, 1]" unfolding two_bins_def by code_simp
  have c0: "count_list two_bins 0 = 50"
    by (simp add: two_bins_def count_list_replicate)
  have c1: "count_list two_bins (Suc 0) = 50"
    by (simp add: two_bins_def count_list_replicate)
  have l: "length two_bins = 100" by (simp add: two_bins_def)
  show ?thesis by (simp add: value_counts_def r c0 c1 l)
qed

lemma value_counts_replicate: "0 < n \<Longrightarrow> value_counts (replicate n x) = [(x, 1)]"
  by (simp add: value_counts_def count_list_replicate remdups_replicate_single)

lemma filter_zip_same:
  "map snd (filter (\<lambda>(a, b). a = x) (zip xs xs)) = replicate (count_list xs x) x"
  by (induction xs) auto

lemma two_bins_given:
  "map snd (filter (\<lambda>(a, b). a = 0) (zip two_bins two_bins)) = replicate 50 0"
  "map snd (filter (\<lambda>(a, b). a = Suc 0) (zip two_bins two_bins)) = replicate 50 (Suc 0)"
  by (simp_all add: filter_zip_same two_bins_def count_list_replicate)

lemma two_bins_smoothed:
  "smoothed_entropy two_bins = - log 2 (1 / 2 + smoothing)"
  "smoothed_conditional_entropy two_bins two_bins = - log 2 (1 + smoothing)"
  by (simp_all add: smoothed_entropy_def smoothed_conditional_entropy_def
        value_counts_two_bins two_bins_given value_counts_replicate)

lemma two_bins_spec:
  "spec_entropy two_bins = 1"
  "spec_conditional_entropy two_bins two_bins = 0"
  by (simp_all add: spec_entropy_def spec_conditional_entropy_def
        value_counts_two_bins two_bins_given value_counts_replicate log_divide)

text \<open>
  C5 as stated fails in its first part. For the labels \<open>two_bins\<close> used as both X and Y
  (a hundred labels, fifty per bin) the specification's H(Y) is 1 and H(Y|X) is 0, so
  max(0, H(Y) - H(Y|X)) is 1; the code adds \<open>1e-10\<close> inside each logarithm and returns
  log2(1 + 1e-10) - log2(1/2 + 1e-10), which is below 1. The returned
  target\_entropy is smaller still, so the gain also exceeds the entropy the code reports.
\<close>

theorem information_gain_smoothing_counterexample:
  "length two_bins = 100 \<and>
   spec_information_gain two_bins two_bins = 1 \<and>
   information_gain (information_gain_of_labels two_bins two_bins) < 1 \<and>
   information_gain (information_gain_of_labels two_bins two_bins)
     \<noteq> spec_information_gain two_bins two_bins \<and>
   target_entropy (information_gain_of_labels two_bins two_bins)
     < information_gain (information_gain_of_labels two_bins two_bins)"
proof -
  have A: "0 < log 2 (1 + smoothing)" by (rule log_smoothing_pos)
  have AB: "log 2 (1 / 2 + smoothing) < log 2 (1 + smoothing)"
    using smoothing_pos by simp
  have "log 2 (1 + smoothing) < log 2 (2 * (1 / 2 + smoothing))"
    using smoothing_pos by simp
  also have "\<dots> = 1 + log 2 (1 / 2 + smoothing)"
    using smoothing_pos by (subst log_mult) (auto intro: add_pos_pos)
  finally have lt1: "log 2 (1 + smoothing) - log 2 (1 / 2 + smoothing) < 1" by simp
  have ig: "information_gain (information_gain_of_labels two_bins two_bins)
              = log 2 (1 + smoothing) - log 2 (1 / 2 + smoothing)"
    using AB by (simp add: information_gain_eq two_bins_smoothed)
  have te: "target_entropy (information_gain_of_labels two_bins two_bins)
              = - log 2 (1 / 2 + smoothing)"
    by (simp add: information_gain_of_labels_def Let_def entropy_of_probs_smoothed
          two_bins_smoothed)
  have sp: "spec_information_gain two_bins two_bins = 1"
    by (simp add: spec_information_gain_def two_bins_spec)
  have len: "length two_bins = 100" by (simp add: two_bins_def)
  show ?thesis using A lt1 by (simp add: ig te sp len)
qed

text \<open>
  C5 (amended): for all discretised label sequences X and Y of equal length, the returned
  information\_gain equals max(0, H'(Y) - H'(Y|X)), where H' is the entropy over the
  observed frequencies computed with \<open>log2(p + 1e-10)\<close> in place of \<open>log2 p\<close>; and it
  satisfies 0 \<le> information\_gain \<le> H(Y), with H(Y) the specification's entropy.
\<close>

theorem information_gain_smoothed_bounds:
  assumes "length xs = length ys"
  shows "information_gain (information_gain_of_labels xs ys) =
           max 0 (smoothed_entropy ys - smoothed_conditional_entropy xs ys)
         \<and> 0 \<le> information_gain (information_gain_of_labels xs ys)
         \<and> information_gain (information_gain_of_labels xs ys) \<le> spec_entropy ys"
proof -
  have "smoothed_entropy ys - smoothed_conditional_entropy xs ys \<le> spec_entropy ys"
  proof (cases "ys = []")
    case True
    with assms have "xs = []" by simp
    with True show ?thesis
      by (simp add: smoothed_entropy_def smoothed_conditional_entropy_def spec_entropy_def
            value_counts_def)
  next
    case False
    show ?thesis
      using smoothed_entropy_upper [OF False] smoothed_conditional_entropy_lower [of xs ys]
      by simp
  qed
  then show ?thesis
    using spec_entropy_nonneg [of ys] by (simp add: information_gain_eq [OF assms])
qed

theorem information_gain_smoothed_bounds_witness:
  "0 \<le> information_gain (information_gain_of_labels two_bins two_bins) \<and>
   information_gain (information_gain_of_labels two_bins two_bins) \<le> 1"
proof -
  have "length two_bins = length two_bins" by simp
  from information_gain_smoothed_bounds [OF this]
  have "0 \<le> information_gain (information_gain_of_labels two_bins two_bins)"
    and "information_gain (information_gain_of_labels two_bins two_bins)
           \<le> spec_entropy two_bins"
    by blast+
  then show ?thesis by (simp add: two_bins_spec)
qed

section \<open>Properties of the horizon optimum\<close>

subsection \<open>C7: the derived optima\<close>

lemma np_le_trans: "np_le a b \<Longrightarrow> np_le b c \<Longrightarrow> np_le a c"
  by (cases a; cases b; cases c) auto

lemma np_le_refl: "\<not> isnan a \<Longrightarrow> np_le a a"
  by (cases a) auto

lemma np_le_total: "\<not> isnan a \<Longrightarrow> \<not> isnan b \<Longrightarrow> np_le a b \<or> np_le b a"
  by (cases a; cases b) auto

lemma np_le_not_nan: "np_le a b \<Longrightarrow> \<not> isnan a \<and> \<not> isnan b"
  by (cases a; cases b) auto

lemma argmax_loop_first_max:
  assumes "list_all (\<lambda>v. \<not> isnan v) xs" and "length pre = i" and "max_ind < i"
    and "pre ! max_ind = mp" and "first_max_index pre max_ind"
  shows "first_max_index (pre @ xs) (argmax_loop xs i max_ind mp)"
  using assms
proof (induction xs arbitrary: pre i max_ind mp)
  case Nil
  then show ?case by simp
next
  case (Cons x xs)
  have x: "\<not> isnan x" and xs: "list_all (\<lambda>v. \<not> isnan v) xs"
    using Cons.prems(1) by simp_all
  have pre_le: "list_all (\<lambda>v. np_le v mp) pre"
    and pre_lt: "list_all (\<lambda>v. \<not> np_le mp v) (take max_ind pre)"
    using Cons.prems(4,5) by (simp_all add: first_max_index_def)
  have mp: "\<not> isnan mp"
    using pre_le Cons.prems(2,3,4) np_le_not_nan [of mp mp]
    by (metis list_all_length)
  show ?case
  proof (cases "np_le x mp")
    case True
    have "first_max_index (pre @ [x]) max_ind"
      using Cons.prems(2,3,4) pre_le pre_lt True
      by (simp add: first_max_index_def nth_append)
    moreover have "(pre @ [x]) ! max_ind = mp"
      using Cons.prems(2,3,4) by (simp add: nth_append)
    ultimately have "first_max_index ((pre @ [x]) @ xs) (argmax_loop xs (Suc i) max_ind mp)"
      using Cons.prems(2,3) xs by (intro Cons.IH) simp_all
    then show ?thesis using True by simp
  next
    case False
    then have mx: "np_le mp x" using np_le_total [OF x mp] by simp
    have "list_all (\<lambda>v. np_le v x) pre"
      using pre_le mx by (auto simp: list_all_iff intro: np_le_trans)
    moreover have "list_all (\<lambda>v. \<not> np_le x v) pre"
      using pre_le False by (auto simp: list_all_iff dest: np_le_trans)
    ultimately have "first_max_index (pre @ [x]) i"
      using Cons.prems(2) x by (simp add: first_max_index_def nth_append np_le_refl)
    moreover have "(pre @ [x]) ! i = x"
      using Cons.prems(2) by (simp add: nth_append)
    ultimately have "first_max_index ((pre @ [x]) @ xs) (argmax_loop xs (Suc i) i x)"
      using Cons.prems(2) xs by (intro Cons.IH) simp_all
    then show ?thesis using False x by simp
  qed
qed

lemma np_argmax_first_max:
  assumes "xs \<noteq> []" and "list_all (\<lambda>v. \<not> isnan v) xs"
  shows "first_max_index xs (np_argmax xs)"
proof -
  obtain x rest where xs: "xs = x # rest" using assms(1) by (cases xs) auto
  have x: "\<not> isnan x" and rest: "list_all (\<lambda>v. \<not> isnan v) rest"
    using assms(2) xs by simp_all
  have "first_max_index [x] 0"
    using x by (simp add: first_max_index_def np_le_refl)
  then have "first_max_index ([x] @ rest) (argmax_loop rest 1 0 x)"
    using rest by (intro argmax_loop_first_max) simp_all
  then show ?thesis using xs x by (simp add: np_argmax_def)
qed

lemma argmax_loop_bound:
  "max_ind < i \<Longrightarrow> argmax_loop xs i max_ind mp < i + length xs"
proof (induction xs arbitrary: i max_ind mp)
  case Nil
  then show ?case by simp
next
  case (Cons x xs)
  have a: "argmax_loop xs (Suc i) max_ind mp < Suc i + length xs"
    using Cons.prems by (intro Cons.IH) simp
  have b: "argmax_loop xs (Suc i) i x < Suc i + length xs"
    by (intro Cons.IH) simp
  show ?case using a b by simp
qed

lemma np_argmax_bound: "xs \<noteq> [] \<Longrightarrow> np_argmax xs < length xs"
  using argmax_loop_bound [of 0 1]
  by (cases xs) (auto simp: np_argmax_def)

lemma argmax_loop_first_nan:
  assumes "\<not> list_all (\<lambda>v. \<not> isnan v) xs" and "length pre = i"
    and "list_all (\<lambda>v. \<not> isnan v) pre" and "\<not> isnan mp"
  shows "isnan ((pre @ xs) ! argmax_loop xs i max_ind mp) \<and>
         list_all (\<lambda>v. \<not> isnan v) (take (argmax_loop xs i max_ind mp) (pre @ xs))"
  using assms
proof (induction xs arbitrary: pre i max_ind mp)
  case Nil
  then show ?case by simp
next
  case (Cons x xs)
  show ?case
  proof (cases "isnan x")
    case True
    then have "\<not> np_le x mp" by (cases x) auto
    then show ?thesis using True Cons.prems(2,3) by (simp add: nth_append)
  next
    case False
    then have rest: "\<not> list_all (\<lambda>v. \<not> isnan v) xs" using Cons.prems(1) by simp
    have pre': "list_all (\<lambda>v. \<not> isnan v) (pre @ [x])" using Cons.prems(3) False by simp
    have len: "length (pre @ [x]) = Suc i" using Cons.prems(2) by simp
    show ?thesis
    proof (cases "np_le x mp")
      case True
      then show ?thesis
        using Cons.IH [OF rest len pre' Cons.prems(4), of max_ind] by simp
    next
      case nle: False
      then show ?thesis
        using Cons.IH [OF rest len pre' False, of i] False by simp
    qed
  qed
qed

lemma np_argmax_first_nan:
  assumes "\<not> list_all (\<lambda>v. \<not> isnan v) xs"
  shows "isnan (xs ! np_argmax xs) \<and> list_all (\<lambda>v. \<not> isnan v) (take (np_argmax xs) xs)"
proof (cases xs)
  case Nil
  then show ?thesis using assms by simp
next
  case (Cons x rest)
  show ?thesis
  proof (cases "isnan x")
    case True
    then show ?thesis using Cons by (simp add: np_argmax_def)
  next
    case False
    then have rest: "\<not> list_all (\<lambda>v. \<not> isnan v) rest" using assms Cons by simp
    have "isnan (([x] @ rest) ! argmax_loop rest 1 0 x) \<and>
          list_all (\<lambda>v. \<not> isnan v) (take (argmax_loop rest 1 0 x) ([x] @ rest))"
      using False by (intro argmax_loop_first_nan [OF rest]) simp_all
    then show ?thesis using Cons False by (simp add: np_argmax_def)
  qed
qed

lemma first_max_index_tie:
  assumes "first_max_index vs i" and "k < length vs" and "vs ! k = vs ! i"
  shows "i \<le> k"
proof (rule ccontr)
  assume "\<not> i \<le> k"
  then have k: "k < i" by simp
  have "list_all (\<lambda>v. \<not> np_le (vs ! i) v) (take i vs)"
    using assms(1) by (simp add: first_max_index_def)
  then have "\<not> np_le (vs ! i) (take i vs ! k)"
    using k assms(1) by (simp add: list_all_length first_max_index_def)
  then have "\<not> np_le (vs ! i) (vs ! i)" using k assms(3) by simp
  moreover have "np_le (vs ! i) (vs ! i)"
    using assms(1) by (simp add: first_max_index_def list_all_length)
  ultimately show False by simp
qed

lemma sorted_keys_tie:
  fixes res :: "(nat \<times> 'a) list"
  assumes "sorted_wrt (<) (map fst res)" and "i < length res"
    and "\<And>k. k < length res \<Longrightarrow> P (snd (res ! k)) \<Longrightarrow> i \<le> k"
  shows "list_all (\<lambda>(h, r). P r \<longrightarrow> fst (res ! i) \<le> h) res"
proof -
  have "P (snd (res ! k)) \<longrightarrow> fst (res ! i) \<le> fst (res ! k)" if k: "k < length res" for k
  proof
    assume "P (snd (res ! k))"
    then have "i \<le> k" using assms(3) k by simp
    then show "fst (res ! i) \<le> fst (res ! k)"
    proof (cases "i = k")
      case True
      then show ?thesis by simp
    next
      case False
      with \<open>i \<le> k\<close> have "i < k" by simp
      then have "map fst res ! i < map fst res ! k"
        using assms(1) k by (intro sorted_wrt_nth_less) simp_all
      then show ?thesis using k assms(2) by simp
    qed
  qed
  then show ?thesis by (simp add: list_all_length split_def)
qed

lemma first_max_tie_map:
  assumes "first_max_index (map f res) i" and "k < length res" and "f (res ! k) = f (res ! i)"
  shows "i \<le> k"
proof -
  have "i < length res" using assms(1) by (simp add: first_max_index_def)
  then show ?thesis
    using first_max_index_tie [OF assms(1), of k] assms(2,3) by simp
qed

text \<open>
  C7 as stated fails in its tie-break. In a result map filled in the order 7, 1 whose two
  entries are equal, every horizon ties on every measure; \<open>find_optimal_horizon\<close> returns
  horizon 7, the first inserted, not the smallest (1).
\<close>

theorem find_optimal_horizon_tie_counterexample:
  "find_optimal_horizon descending_results =
     Some \<lparr>optimal_horizon_ig = 7, max_ig = 0.2, optimal_horizon_mi = 7, max_mi = 0.1,
           optimal_horizon_corr = 7, max_correlation = Fin 0.3,
           all_horizons = [7, 1], all_ig = [0.2, 0.2]\<rparr> \<and>
   map_of descending_results 1 = Some tied_result \<and>
   map_of descending_results 7 = Some tied_result \<and>
   optimal_horizon_ig (the (find_optimal_horizon descending_results)) \<noteq> 1"
  by (simp add: find_optimal_horizon_def descending_results_def tied_result_def
        np_argmax_def Let_def)

text \<open>
  C7 (amended): for every non-empty per-horizon result map, the derived optima are the
  horizons at the first position, in the map's insertion order, of a maximum of
  information\_gain, of the normalised mutual information, and of the absolute Pearson
  correlation (when a correlation is NaN, at the first position of a NaN correlation
  instead). On an exact tie the horizon inserted first is returned; it is the smallest
  tied horizon when the map was filled in ascending order of horizon.
\<close>

theorem find_optimal_horizon_first_max:
  assumes "res \<noteq> []"
  shows "\<exists>opt i_ig i_mi i_corr.
     find_optimal_horizon res = Some opt \<and>
     first_max_index (map (\<lambda>(h, r). Fin (h_information_gain r)) res) i_ig \<and>
     optimal_horizon_ig opt = fst (res ! i_ig) \<and>
     max_ig opt = h_information_gain (snd (res ! i_ig)) \<and>
     first_max_index (map (\<lambda>(h, r). Fin (h_normalized_mi r)) res) i_mi \<and>
     optimal_horizon_mi opt = fst (res ! i_mi) \<and>
     max_mi opt = h_normalized_mi (snd (res ! i_mi)) \<and>
     i_corr < length res \<and>
     optimal_horizon_corr opt = fst (res ! i_corr) \<and>
     max_correlation opt = np_abs (h_correlation (snd (res ! i_corr))) \<and>
     (if list_all (\<lambda>(h, r). \<not> isnan (h_correlation r)) res
      then first_max_index (map (\<lambda>(h, r). np_abs (h_correlation r)) res) i_corr
      else isnan (h_correlation (snd (res ! i_corr))) \<and>
           list_all (\<lambda>(h, r). \<not> isnan (h_correlation r)) (take i_corr res)) \<and>
     (sorted_wrt (<) (map fst res) \<longrightarrow>
        list_all (\<lambda>(h, r). h_information_gain r = max_ig opt \<longrightarrow>
                    optimal_horizon_ig opt \<le> h) res \<and>
        list_all (\<lambda>(h, r). h_normalized_mi r = max_mi opt \<longrightarrow>
                    optimal_horizon_mi opt \<le> h) res \<and>
        list_all (\<lambda>(h, r). np_abs (h_correlation r) = max_correlation opt \<longrightarrow>
                    optimal_horizon_corr opt \<le> h) res)"
proof -
  let ?igs = "map (\<lambda>(h, r). Fin (h_information_gain r)) res"
  let ?mis = "map (\<lambda>(h, r). Fin (h_normalized_mi r)) res"
  let ?cs = "map (\<lambda>(h, r). np_abs (h_correlation r)) res"
  define i_ig where "i_ig = np_argmax ?igs"
  define i_mi where "i_mi = np_argmax ?mis"
  define i_c where "i_c = np_argmax ?cs"
  have ne: "?igs \<noteq> []" "?mis \<noteq> []" "?cs \<noteq> []" using assms by simp_all
  have b_ig: "i_ig < length res" using np_argmax_bound [OF ne(1)] by (simp add: i_ig_def)
  have b_mi: "i_mi < length res" using np_argmax_bound [OF ne(2)] by (simp add: i_mi_def)
  have b_c: "i_c < length res" using np_argmax_bound [OF ne(3)] by (simp add: i_c_def)
  have f_ig: "first_max_index ?igs i_ig"
    unfolding i_ig_def by (rule np_argmax_first_max [OF ne(1)]) (simp add: list_all_iff split_def)
  have f_mi: "first_max_index ?mis i_mi"
    unfolding i_mi_def by (rule np_argmax_first_max [OF ne(2)]) (simp add: list_all_iff split_def)
  have nan_abs: "isnan (np_abs v) = isnan v" for v by (cases v) auto
  have all_c: "list_all (\<lambda>v. \<not> isnan v) ?cs = list_all (\<lambda>(h, r). \<not> isnan (h_correlation r)) res"
    by (simp add: list_all_iff split_def nan_abs)
  have f_c: "first_max_index ?cs i_c" if "list_all (\<lambda>(h, r). \<not> isnan (h_correlation r)) res"
    unfolding i_c_def using that all_c by (intro np_argmax_first_max [OF ne(3)]) simp
  have n_c: "isnan (h_correlation (snd (res ! i_c))) \<and>
             list_all (\<lambda>(h, r). \<not> isnan (h_correlation r)) (take i_c res)"
    if "\<not> list_all (\<lambda>(h, r). \<not> isnan (h_correlation r)) res"
  proof -
    have "\<not> list_all (\<lambda>v. \<not> isnan v) ?cs" using that all_c by simp
    from np_argmax_first_nan [OF this]
    have "isnan (?cs ! i_c)" and "list_all (\<lambda>v. \<not> isnan v) (take i_c ?cs)"
      by (simp_all add: i_c_def)
    then show ?thesis
      using b_c by (simp add: split_def nan_abs take_map list_all_iff)
  qed
  define opt where "opt =
     \<lparr>optimal_horizon_ig = fst (res ! i_ig), max_ig = h_information_gain (snd (res ! i_ig)),
      optimal_horizon_mi = fst (res ! i_mi), max_mi = h_normalized_mi (snd (res ! i_mi)),
      optimal_horizon_corr = fst (res ! i_c),
      max_correlation = np_abs (h_correlation (snd (res ! i_c))),
      all_horizons = map fst res, all_ig = map (\<lambda>(h, r). h_information_gain r) res\<rparr>"
  have find: "find_optimal_horizon res = Some opt"
    using assms b_ig b_mi b_c
    by (simp add: find_optimal_horizon_def Let_def opt_def i_ig_def i_mi_def i_c_def
          split_def o_def)
  have t_ig: "i_ig \<le> k" if "k < length res"
    and "h_information_gain (snd (res ! k)) = h_information_gain (snd (res ! i_ig))" for k
    using first_max_tie_map [OF f_ig that(1)] that(2) by (simp add: split_def)
  have t_mi: "i_mi \<le> k" if "k < length res"
    and "h_normalized_mi (snd (res ! k)) = h_normalized_mi (snd (res ! i_mi))" for k
    using first_max_tie_map [OF f_mi that(1)] that(2) by (simp add: split_def)
  have t_c: "i_c \<le> k" if k: "k < length res"
    and eq: "np_abs (h_correlation (snd (res ! k))) = np_abs (h_correlation (snd (res ! i_c)))"
    for k
  proof (cases "list_all (\<lambda>(h, r). \<not> isnan (h_correlation r)) res")
    case True
    show ?thesis
      using first_max_tie_map [OF f_c [OF True] k] eq by (simp add: split_def)
  next
    case False
    from n_c [OF False] have nan: "isnan (h_correlation (snd (res ! i_c)))"
      and before: "list_all (\<lambda>(h, r). \<not> isnan (h_correlation r)) (take i_c res)"
      by simp_all
    have "isnan (h_correlation (snd (res ! k)))"
      using nan eq nan_abs by metis
    show ?thesis
    proof (rule ccontr)
      assume "\<not> i_c \<le> k"
      then have "k < i_c" by simp
      then have "\<not> isnan (h_correlation (snd (res ! k)))"
        using before b_c by (simp add: list_all_length split_def)
      then show False using \<open>isnan (h_correlation (snd (res ! k)))\<close> by simp
    qed
  qed
  have ties: "list_all (\<lambda>(h, r). h_information_gain r = max_ig opt \<longrightarrow>
                    optimal_horizon_ig opt \<le> h) res \<and>
        list_all (\<lambda>(h, r). h_normalized_mi r = max_mi opt \<longrightarrow>
                    optimal_horizon_mi opt \<le> h) res \<and>
        list_all (\<lambda>(h, r). np_abs (h_correlation r) = max_correlation opt \<longrightarrow>
                    optimal_horizon_corr opt \<le> h) res"
    if s: "sorted_wrt (<) (map fst res)"
    using sorted_keys_tie [OF s b_ig, of "\<lambda>r. h_information_gain r = max_ig opt"]
      sorted_keys_tie [OF s b_mi, of "\<lambda>r. h_normalized_mi r = max_mi opt"]
      sorted_keys_tie [OF s b_c, of "\<lambda>r. np_abs (h_correlation r) = max_correlation opt"]
      t_ig t_mi t_c
    by (simp add: opt_def)
  have "find_optimal_horizon res = Some opt \<and>
     first_max_index ?igs i_ig \<and>
     optimal_horizon_ig opt = fst (res ! i_ig) \<and>
     max_ig opt = h_information_gain (snd (res ! i_ig)) \<and>
     first_max_index ?mis i_mi \<and>
     optimal_horizon_mi opt = fst (res ! i_mi) \<and>
     max_mi opt = h_normalized_mi (snd (res ! i_mi)) \<and>
     i_c < length res \<and>
     optimal_horizon_corr opt = fst (res ! i_c) \<and>
     max_correlation opt = np_abs (h_correlation (snd (res ! i_c))) \<and>
     (if list_all (\<lambda>(h, r). \<not> isnan (h_correlation r)) res
      then first_max_index ?cs i_c
      else isnan (h_correlation (snd (res ! i_c))) \<and>
           list_all (\<lambda>(h, r). \<not> isnan (h_correlation r)) (take i_c res)) \<and>
     (sorted_wrt (<) (map fst res) \<longrightarrow>
        list_all (\<lambda>(h, r). h_information_gain r = max_ig opt \<longrightarrow>
                    optimal_horizon_ig opt \<le> h) res \<and>
        list_all (\<lambda>(h, r). h_normalized_mi r = max_mi opt \<longrightarrow>
                    optimal_horizon_mi opt \<le> h) res \<and>
        list_all (\<lambda>(h, r). np_abs (h_correlation r) = max_correlation opt \<longrightarrow>
                    optimal_horizon_corr opt \<le> h) res)"
    using find f_ig f_mi b_c f_c n_c ties by (simp add: opt_def)
  then show ?thesis by blast
qed


theorem find_optimal_horizon_first_max_witness:
  "find_optimal_horizon ascending_results =
     Some \<lparr>optimal_horizon_ig = 7, max_ig = 0.2, optimal_horizon_mi = 7, max_mi = 0.1,
           optimal_horizon_corr = 7, max_correlation = Fin 0.3,
           all_horizons = [1, 7, 30], all_ig = [0.1, 0.2, 0.2]\<rparr> \<and>
   sorted_wrt (<) (map fst ascending_results) \<and>
   list_all (\<lambda>(h, r). h_information_gain r = 0.2 \<longrightarrow> 7 \<le> h) ascending_results"
proof -
  have ne: "ascending_results \<noteq> []" by (simp add: ascending_results_def)
  have s: "sorted_wrt (<) (map fst ascending_results)" by (simp add: ascending_results_def)
  have e: "find_optimal_horizon ascending_results =
     Some \<lparr>optimal_horizon_ig = 7, max_ig = 0.2, optimal_horizon_mi = 7, max_mi = 0.1,
           optimal_horizon_corr = 7, max_correlation = Fin 0.3,
           all_horizons = [1, 7, 30], all_ig = [0.1, 0.2, 0.2]\<rparr>"
    by (simp add: find_optimal_horizon_def ascending_results_def tied_result_def
          weaker_result_def np_argmax_def Let_def)
  from find_optimal_horizon_first_max [OF ne] obtain opt where o: "find_optimal_horizon ascending_results = Some opt"
    and t: "sorted_wrt (<) (map fst ascending_results) \<longrightarrow>
        list_all (\<lambda>(h, r). h_information_gain r = max_ig opt \<longrightarrow>
                    optimal_horizon_ig opt \<le> h) ascending_results"
    by blast
  from o e have "opt = \<lparr>optimal_horizon_ig = 7, max_ig = 0.2, optimal_horizon_mi = 7, max_mi = 0.1,
           optimal_horizon_corr = 7, max_correlation = Fin 0.3,
           all_horizons = [1, 7, 30], all_ig = [0.1, 0.2, 0.2]\<rparr>" by simp
  with t s have "list_all (\<lambda>(h, r). h_information_gain r = 0.2 \<longrightarrow> 7 \<le> h) ascending_results"
    by simp
  with e s show ?thesis by simp
qed

section \<open>Properties of the horizon scans\<close>

subsection \<open>C3: horizons with too few rows\<close>

lemma map_of_dict_set: "map_of (dict_set d k v) k' = (if k' = k then Some v else map_of d k')"
  by (induction d) auto

lemma map_of_fold_dict_set_option:
  "map_of (fold (\<lambda>h results. case g h of None \<Rightarrow> results | Some r \<Rightarrow> dict_set results h r)
             hs acc) h =
     (if h \<in> set hs \<and> g h \<noteq> None then g h else map_of acc h)"
  by (induction hs arbitrary: acc) (auto simp: map_of_dict_set split: option.splits)

lemma length_select_mask_zip:
  "length (select_mask xs (map P (zip xs ys))) = length (filter P (zip xs ys))"
proof (induction xs arbitrary: ys)
  case Nil
  then show ?case by (simp add: select_mask_def)
next
  case (Cons x xs)
  then show ?case by (cases ys) (auto simp: select_mask_def)
qed

lemma calculate_information_gain_small:
  assumes "valid_rows indicator target < 100"
  shows "calculate_information_gain L indicator target bins = Returns None"
proof -
  have "(\<lambda>(a, b). \<not> (isnan a \<or> isnan b)) = (\<lambda>(a, b). \<not> isnan a \<and> \<not> isnan b)"
    by auto
  then have "length (select_mask indicator
               (map (\<lambda>(a, b). \<not> (isnan a \<or> isnan b)) (zip indicator target)))
             = valid_rows indicator target"
    by (simp add: length_select_mask_zip valid_rows_def)
  then show ?thesis using assms by (simp add: calculate_information_gain_def Let_def)
qed

lemma np_change_not_nan: "\<not> isnan (fillna_0 x)"
  by (cases x) auto

lemma length_build_target:
  fixes df :: "(npfloat \<times> npfloat) list" and horizon :: nat
  assumes "list_all (\<lambda>(a, b). \<not> isnan a \<and> \<not> isnan b) df"
  shows "length (build_target df horizon) = length df - horizon"
proof -
  define price where "price = map snd df"
  define future_price where "future_price =
     map (\<lambda>t. if t + horizon < length price then price ! (t + horizon) else NaN)
       [0 ..< length price]"
  define price_change where "price_change =
     map (\<lambda>(f, p). fillna_0 (np_minus_one (np_div f p))) (zip future_price price)"
  define rows where "rows = zip (map fst df) (zip future_price price_change)"
  define P :: "npfloat \<times> npfloat \<times> npfloat \<Rightarrow> bool"
    where "P = (\<lambda>(a, f, c). \<not> isnan f \<and> \<not> isnan c)"
  let ?n = "length df"
  have bt: "build_target df horizon = filter P rows"
    unfolding build_target_def Let_def rows_def price_change_def future_price_def
      price_def P_def by (rule refl)
  have len: "length rows = ?n"
    by (simp add: rows_def future_price_def price_change_def price_def)
  have nn: "\<not> isnan (price ! t)" if "t < ?n" for t
    using assms that by (auto simp: price_def list_all_length split_def)
  have row: "P (rows ! t) \<longleftrightarrow> t + horizon < ?n" if t: "t < ?n" for t
  proof -
    have f: "future_price ! t = (if t + horizon < ?n then price ! (t + horizon) else NaN)"
      using t by (simp add: future_price_def price_def)
    have c: "\<not> isnan (price_change ! t)"
      using t by (simp add: price_change_def future_price_def price_def np_change_not_nan
                    split_def)
    have "rows ! t = (map fst df ! t, future_price ! t, price_change ! t)"
      using t by (simp add: rows_def future_price_def price_change_def price_def)
    then show ?thesis using f c nn [of "t + horizon"] by (simp add: P_def)
  qed
  have "{t. t < length rows \<and> P (rows ! t)} = {t. t < ?n - horizon}"
  proof (rule Collect_cong)
    fix t
    show "(t < length rows \<and> P (rows ! t)) = (t < ?n - horizon)"
    proof (cases "t < ?n")
      case True
      then show ?thesis using row [OF True] len by (simp add: less_diff_conv)
    next
      case False
      then show ?thesis using len by simp
    qed
  qed
  then have "length (filter P rows) = ?n - horizon"
    by (simp add: length_filter_conv_card)
  then show ?thesis by (simp add: bt)
qed

lemma aligned_rows_all: "list_all (\<lambda>(a, b). \<not> isnan a \<and> \<not> isnan b) (aligned_rows frame)"
  by (simp add: aligned_rows_def list_all_iff)

lemma scan_horizon_few_rows:
  "length (aligned_rows frame) < 100 \<or> length (aligned_rows frame) - horizon < 50 \<Longrightarrow>
   scan_horizon L frame horizon = None"
  using length_build_target [OF aligned_rows_all, of frame horizon]
  by (auto simp: scan_horizon_def Let_def)

lemma calculate_mutual_information_small:
  "valid_rows indicator target < 100 \<Longrightarrow>
   calculate_mutual_information L indicator target discrete = Returns None"
  by (simp add: calculate_mutual_information_def valid_rows_def Let_def)

lemma predictive_entry_small:
  assumes "valid_rows indicator_col (lib_pct_change_shift L price_col horizon) < 100"
    and "predictive_entry_for L indicator_col price_col horizon = Returns e"
  shows "p_information_gain e = 0 \<and> p_gain_ratio e = 0 \<and>
         p_symmetric_uncertainty e = 0 \<and> p_reduction_ratio e = 0"
  using assms
  by (auto simp: predictive_entry_for_def Let_def get_or_0_def
        calculate_information_gain_small calculate_mutual_information_small
        split: attempt.splits)

lemma predictive_entry_returns:
  assumes "valid_rows indicator_col (lib_pct_change_shift L price_col horizon) < 100"
    and "length (lib_pct_change_shift L price_col horizon) < horizon + 100"
  shows "\<exists>e. predictive_entry_for L indicator_col price_col horizon = Returns e"
  using assms
  by (simp add: predictive_entry_for_def Let_def calculate_transfer_entropy_def
        calculate_information_gain_small calculate_mutual_information_small)

lemma predictive_loop_entry:
  "predictive_loop L indicator_col price_col hs acc = Returns results \<Longrightarrow>
   (if horizon \<in> set hs
    then \<exists>e. predictive_entry_for L indicator_col price_col horizon = Returns e \<and>
             map_of results horizon = Some e
    else map_of results horizon = map_of acc horizon)"
proof (induction hs arbitrary: acc)
  case Nil
  then show ?case by simp
next
  case (Cons h hs)
  from Cons.prems obtain entry where
    e: "predictive_entry_for L indicator_col price_col h = Returns entry" and
    r: "predictive_loop L indicator_col price_col hs (dict_set acc h entry) = Returns results"
    by (auto split: attempt.splits)
  from Cons.IH [OF r] e show ?case
    by (auto simp: map_of_dict_set split: if_splits)
qed

lemma predictive_loop_returns:
  "\<forall>h \<in> set hs. \<exists>e. predictive_entry_for L indicator_col price_col h = Returns e \<Longrightarrow>
   \<exists>results. predictive_loop L indicator_col price_col hs acc = Returns results"
  by (induction hs arbitrary: acc) auto

lemma predictive_loop_raises:
  "\<exists>h \<in> set hs. predictive_entry_for L indicator_col price_col h = Raises \<Longrightarrow>
   predictive_loop L indicator_col price_col hs acc = Raises"
  by (induction hs arbitrary: acc) (auto split: attempt.splits)

lemma calculate_information_gain_raises:
  assumes "\<not> valid_rows indicator target < 100"
    and "\<forall>xs. lib_qcut L xs bins = Raises" and "\<forall>xs. lib_cut L xs bins = Raises"
  shows "calculate_information_gain L indicator target bins = Raises"
proof -
  have "(\<lambda>(a, b). \<not> (isnan a \<or> isnan b)) = (\<lambda>(a, b). \<not> isnan a \<and> \<not> isnan b)"
    by auto
  then have "length (select_mask indicator
               (map (\<lambda>(a, b). \<not> (isnan a \<or> isnan b)) (zip indicator target)))
             = valid_rows indicator target"
    by (simp add: length_select_mask_zip valid_rows_def)
  then show ?thesis
    using assms by (simp add: calculate_information_gain_def discretize_pair_def Let_def)
qed

lemma forward_return_constant:
  "forward_return (replicate (Suc n) (Fin 10)) (Suc 0) = replicate n (Fin 0) @ [NaN]"
proof (rule nth_equalityI)
  show "length (forward_return (replicate (Suc n) (Fin 10)) (Suc 0)) =
        length (replicate n (Fin 0) @ [NaN])"
    by (simp add: forward_return_def)
next
  fix i
  assume "i < length (forward_return (replicate (Suc n) (Fin 10)) (Suc 0))"
  then have i: "i < Suc n" by (simp add: forward_return_def)
  show "forward_return (replicate (Suc n) (Fin 10)) (Suc 0) ! i =
        (replicate n (Fin 0) @ [NaN]) ! i"
  proof (cases "i < n")
    case True
    then show ?thesis
      using i by (simp add: forward_return_def nth_append del: replicate.simps upt_Suc)
  next
    case False
    with i have "i = n" by simp
    then show ?thesis
      by (simp add: forward_return_def nth_append del: replicate.simps upt_Suc)
  qed
qed

lemma valid_rows_constant:
  "valid_rows (replicate (Suc n) (Fin 1)) (replicate n (Fin 0) @ [NaN]) = n"
proof -
  have "replicate (Suc n) (Fin 1) = replicate n (Fin 1) @ [Fin 1]"
    by (simp add: replicate_append_same)
  then show ?thesis
    by (simp add: valid_rows_def zip_replicate del: replicate.simps)
qed

lemma constant_rows_raise:
  "predictive_entry_for three_row_libs (map fst constant_rows) (map snd constant_rows) 1 =
     Raises"
proof -
  have fc: "forward_return (replicate 101 (Fin 10)) (Suc 0) = replicate 100 (Fin 0) @ [NaN]"
    using forward_return_constant [of 100] by simp
  have vc: "valid_rows (replicate 101 (Fin 1)) (replicate 100 (Fin 0) @ [NaN]) = 100"
    using valid_rows_constant [of 100] by simp
  have f: "lib_pct_change_shift three_row_libs (map snd constant_rows) (Suc 0) =
             replicate 100 (Fin 0) @ [NaN]"
    by (simp add: constant_rows_def three_row_libs_def fc)
  have i: "map fst constant_rows = replicate 101 (Fin 1)"
    by (simp add: constant_rows_def)
  have "calculate_information_gain three_row_libs (map fst constant_rows)
          (replicate 100 (Fin 0) @ [NaN]) 10 = Raises"
    unfolding i
    by (rule calculate_information_gain_raises) (simp_all add: vc three_row_libs_def)
  then show ?thesis
    by (simp add: predictive_entry_for_def f Let_def)
qed

lemma multi_horizon_entry:
  "map_of (calculate_information_gain_multi_horizon L frame hs) horizon =
     (if horizon \<in> set (case hs of None \<Rightarrow> default_horizons | Some xs \<Rightarrow> xs)
      then scan_horizon L frame horizon else None)"
  by (auto simp: calculate_information_gain_multi_horizon_def Let_def
        map_of_fold_dict_set_option)

text \<open>
  C3 as stated fails. On a frame of three rows and horizon 1 only two rows have both an
  indicator value and a forward return, far below 100; \<open>calculate_information_gain\<close>
  returns the empty dictionary, and \<open>analyze_predictive_information\<close> still returns a map
  with an entry for horizon 1, whose information gain and other scores are the defaults 0.
\<close>

theorem analyze_predictive_information_small_sample_counterexample:
  "valid_rows (map fst three_rows)
     (lib_pct_change_shift three_row_libs (map snd three_rows) 1) = 2 \<and>
   analyze_predictive_information three_row_libs three_rows [1] =
     Returns
       [(1, \<lparr>p_information_gain = 0, p_gain_ratio = 0, p_symmetric_uncertainty = 0,
             p_reduction_ratio = 0, p_mutual_info_regression = 0,
             p_normalized_mi_regression = 0, p_mutual_info_classification = 0,
             p_normalized_mi_classification = 0, p_transfer_entropy = 0,
             p_correlation = NaN, p_correlation_squared = NaN\<rparr>)]"
proof -
  have fr: "forward_return [Fin 10, Fin 20, Fin 40] (Suc 0) = [Fin 1, Fin 1, NaN]"
    by (simp add: forward_return_def upt_rec)
  have v: "valid_rows [Fin 1, Fin 2, Fin 3] [Fin 1, Fin 1, NaN] = 2"
    by (simp add: valid_rows_def)
  show ?thesis
    by (simp add: three_rows_def three_row_libs_def fr v analyze_predictive_information_def
          predictive_entry_for_def Let_def get_or_0_def calculate_transfer_entropy_def
          calculate_information_gain_small calculate_mutual_information_small)
qed

text \<open>
  C3 (amended): \<open>analyze_predictive_information\<close> has no exception handler, so an
  exception of one of its library calls, at any requested horizon, leaves it and no map
  is returned. Whenever it returns a map, every requested horizon is recorded in it, and
  for a horizon whose aligned, NaN-free row count is below 100 the entry's
  information\_gain, gain\_ratio, symmetric\_uncertainty and reduction\_ratio are 0. It
  does return a map when every requested horizon has fewer than 100 such rows and the
  forward-return column has fewer than horizon + 100 rows, because no estimator is called
  then.
  \<open>calculate_information_gain_multi_horizon\<close> always returns, and omits a horizon from
  its output map when the aligned, NaN-free frame has fewer than 100 rows, or when fewer
  than 50 rows remain after the rows without a future price are dropped.
\<close>

theorem horizon_scans_small_samples:
  "(analyze_predictive_information L data horizons = Returns results \<and>
    horizon \<in> set horizons \<longrightarrow>
      (\<exists>e. map_of results horizon = Some e \<and>
           (valid_rows (map fst data) (lib_pct_change_shift L (map snd data) horizon) < 100
            \<longrightarrow> p_information_gain e = 0 \<and> p_gain_ratio e = 0 \<and>
                p_symmetric_uncertainty e = 0 \<and> p_reduction_ratio e = 0))) \<and>
   ((\<exists>h \<in> set horizons.
       predictive_entry_for L (map fst data) (map snd data) h = Raises) \<longrightarrow>
      analyze_predictive_information L data horizons = Raises) \<and>
   ((\<forall>h \<in> set horizons.
       valid_rows (map fst data) (lib_pct_change_shift L (map snd data) h) < 100 \<and>
       length (lib_pct_change_shift L (map snd data) h) < h + 100) \<longrightarrow>
      (\<exists>returned. analyze_predictive_information L data horizons = Returns returned)) \<and>
   (length (aligned_rows frame) < 100 \<or> length (aligned_rows frame) - horizon < 50 \<longrightarrow>
      map_of (calculate_information_gain_multi_horizon L frame hs) horizon = None)"
proof (intro conjI impI)
  assume "\<exists>h \<in> set horizons.
       predictive_entry_for L (map fst data) (map snd data) h = Raises"
  then show "analyze_predictive_information L data horizons = Raises"
    by (simp add: analyze_predictive_information_def predictive_loop_raises)
next
  assume a: "analyze_predictive_information L data horizons = Returns results \<and>
             horizon \<in> set horizons"
  then have "predictive_loop L (map fst data) (map snd data) horizons [] = Returns results"
    by (simp add: analyze_predictive_information_def)
  from predictive_loop_entry [OF this, of horizon] a obtain e where
    e: "predictive_entry_for L (map fst data) (map snd data) horizon = Returns e" and
    m: "map_of results horizon = Some e"
    by auto
  have "valid_rows (map fst data) (lib_pct_change_shift L (map snd data) horizon) < 100
        \<longrightarrow> p_information_gain e = 0 \<and> p_gain_ratio e = 0 \<and>
            p_symmetric_uncertainty e = 0 \<and> p_reduction_ratio e = 0"
    using predictive_entry_small [OF _ e] by blast
  with m show "\<exists>e. map_of results horizon = Some e \<and>
           (valid_rows (map fst data) (lib_pct_change_shift L (map snd data) horizon) < 100
            \<longrightarrow> p_information_gain e = 0 \<and> p_gain_ratio e = 0 \<and>
                p_symmetric_uncertainty e = 0 \<and> p_reduction_ratio e = 0)"
    by blast
next
  assume "\<forall>h \<in> set horizons.
       valid_rows (map fst data) (lib_pct_change_shift L (map snd data) h) < 100 \<and>
       length (lib_pct_change_shift L (map snd data) h) < h + 100"
  then have "\<forall>h \<in> set horizons.
       \<exists>e. predictive_entry_for L (map fst data) (map snd data) h = Returns e"
    by (auto intro: predictive_entry_returns)
  from predictive_loop_returns [OF this]
  show "\<exists>returned. analyze_predictive_information L data horizons = Returns returned"
    by (simp add: analyze_predictive_information_def)
next
  assume "length (aligned_rows frame) < 100 \<or> length (aligned_rows frame) - horizon < 50"
  then show "map_of (calculate_information_gain_multi_horizon L frame hs) horizon = None"
    by (simp add: multi_horizon_entry scan_horizon_few_rows)
qed

theorem horizon_scans_small_samples_witness:
  "(\<exists>results e.
      analyze_predictive_information three_row_libs three_rows [1] = Returns results \<and>
      map_of results 1 = Some e \<and>
      p_information_gain e = 0 \<and> p_gain_ratio e = 0 \<and>
      p_symmetric_uncertainty e = 0 \<and> p_reduction_ratio e = 0) \<and>
   analyze_predictive_information three_row_libs constant_rows [1] = Raises \<and>
   map_of (calculate_information_gain_multi_horizon three_row_libs three_rows None) 1 = None"
proof -
  have fr: "forward_return [Fin 10, Fin 20, Fin 40] (Suc 0) = [Fin 1, Fin 1, NaN]"
    by (simp add: forward_return_def upt_rec)
  have v: "valid_rows (map fst three_rows)
             (lib_pct_change_shift three_row_libs (map snd three_rows) 1) < 100"
    by (simp add: three_rows_def three_row_libs_def fr valid_rows_def)
  have l: "length (lib_pct_change_shift three_row_libs (map snd three_rows) 1) < 1 + 100"
    by (simp add: three_rows_def three_row_libs_def fr)
  have a: "length (aligned_rows three_rows) < 100"
    by (simp add: aligned_rows_def three_rows_def)
  have all: "\<forall>h \<in> set [1::nat].
       valid_rows (map fst three_rows)
         (lib_pct_change_shift three_row_libs (map snd three_rows) h) < 100 \<and>
       length (lib_pct_change_shift three_row_libs (map snd three_rows) h) < h + 100"
    using v l by simp
  have h: "(1::nat) \<in> set [1]" by simp
  from all obtain returned where
    r: "analyze_predictive_information three_row_libs three_rows [1] = Returns returned"
    using horizon_scans_small_samples
            [of three_row_libs three_rows "[1]" returned 1 three_rows None]
    by blast
  have ex: "\<exists>h \<in> set [1::nat].
       predictive_entry_for three_row_libs (map fst constant_rows) (map snd constant_rows) h
         = Raises"
    using constant_rows_raise by simp
  have raised: "analyze_predictive_information three_row_libs constant_rows [1] = Raises"
    using horizon_scans_small_samples
            [of three_row_libs constant_rows "[1]" returned 1 three_rows None] ex
    by blast
  show ?thesis
    using horizon_scans_small_samples
            [of three_row_libs three_rows "[1]" returned 1 three_rows None] r v a h raised
    by blast
qed

section \<open>Two runs of one stream\<close>















subsection \<open>C9: determinism\<close>



end
